theory Spec2Isabelle
  imports Complex_Main "HOL-Library.Sublist"
begin

section \<open>Python values\<close>

text \<open>
  Fields that the source types as \<open>Any\<close> (a predicate's \<open>expected_value\<close>, the
  values of a \<open>metadata\<close> dictionary, the values of an element's attribute dictionary)
  hold JSON-like values. Strings are byte strings; a dictionary is an association list
  read with \<open>map_of\<close> (the first binding of a key is the one \<open>dict.get\<close> returns).
\<close>

datatype pyval =
    PyNone
  | PyBool bool
  | PyInt int
  | PyStr string
  | PyList "pyval list"
  | PyDict "(string \<times> pyval) list"

text \<open>Python truthiness (\<open>bool(v)\<close>, \<open>if v\<close>, \<open>v or d\<close>).\<close>

fun truthy :: "pyval \<Rightarrow> bool" where
  "truthy PyNone = False"
| "truthy (PyBool b) = b"
| "truthy (PyInt n) = (n \<noteq> 0)"
| "truthy (PyStr s) = (s \<noteq> [])"
| "truthy (PyList xs) = (xs \<noteq> [])"
| "truthy (PyDict kvs) = (kvs \<noteq> [])"

text \<open>
  The exceptions that the modelled code can let escape. \<open>BaseException\<close> stands for an
  exception that is not derived from \<open>Exception\<close>.
\<close>

datatype py_error =
    TypeError string
  | AttributeError string
  | ValidationError string
  | OverflowError string
  | RecursionError string
  | BaseException string

text \<open>
  Python slicing \<open>xs[start:stop]\<close> with integer bounds: a negative bound counts from the
  end, and every bound is clamped into \<open>0..len(xs)\<close>. \<open>None\<close> is an omitted bound.
\<close>

definition norm_index :: "nat \<Rightarrow> int \<Rightarrow> nat" where
  "norm_index n i = (if i < 0 then nat (max 0 (int n + i)) else min n (nat i))"

definition py_slice :: "'a list \<Rightarrow> int option \<Rightarrow> int option \<Rightarrow> 'a list" where
  "py_slice xs start stop =
     (let n = length xs;
          lo = (case start of None \<Rightarrow> 0 | Some i \<Rightarrow> norm_index n i);
          hi = (case stop of None \<Rightarrow> n | Some j \<Rightarrow> norm_index n j)
      in take (hi - lo) (drop lo xs))"

text \<open>Decimal rendering of an integer, as \<open>str(n)\<close> and an f-string do.\<close>

definition digit_char :: "nat \<Rightarrow> char" where
  "digit_char d = ''0123456789'' ! (d mod 10)"

fun string_of_nat :: "nat \<Rightarrow> string" where
  "string_of_nat n =
     (if n < 10 then [digit_char n]
      else string_of_nat (n div 10) @ [digit_char (n mod 10)])"

definition string_of_int :: "int \<Rightarrow> string" where
  "string_of_int i = (if i < 0 then CHR ''-'' # string_of_nat (nat (- i)) else string_of_nat (nat i))"

text \<open>\<open>str.lower()\<close> on the ASCII letters.\<close>

definition char_lower :: "char \<Rightarrow> char" where
  "char_lower c =
     (case map_of (zip ''ABCDEFGHIJKLMNOPQRSTUVWXYZ'' ''abcdefghijklmnopqrstuvwxyz'') c of
        None \<Rightarrow> c
      | Some l \<Rightarrow> l)"

definition lower :: "string \<Rightarrow> string" where
  "lower s = map char_lower s"


section \<open>Message envelope (schemas/agent_messages.py)\<close>

datatype AgentRole = PLANNER | EXECUTOR | VALIDATOR | COORDINATOR

datatype MessageType =
    THOUGHT | PLAN | ACTION_PROPOSAL | ACTION_APPROVAL | ACTION_REJECTION
  | EXECUTION_RESULT | VALIDATION_REQUEST | VALIDATION_RESULT | CRITIQUE
  | CONSENSUS_REQUEST | CONSENSUS_RESPONSE | ERROR | STATUS_UPDATE

text \<open>
  A \<open>float\<close> is modelled by the real number it denotes. \<open>confidence\<close> is validated by
  pydantic into \<open>[0, 1]\<close>, so NaN and the infinities never reach the code below.
\<close>

record ActionProposalMessage =
  ap_action_type :: string
  ap_action_data :: "(string \<times> pyval) list"
  rationale :: string
  risk_assessment :: string
  confidence :: real
  ap_fallback_actions :: "(string \<times> pyval) list list"

record ActionApprovalMessage =
  approved :: bool
  approver_reasoning :: string
  modifications :: "(string \<times> pyval) list"
  conditions :: "string list"

text \<open>
  \<open>AgentMessage.content\<close> is the \<open>model_dump()\<close> dictionary of a payload model. The
  dictionary is represented by the payload it was dumped from; any other dictionary is
  a \<open>RawPayload\<close>.
\<close>

datatype payload =
    ProposalPayload ActionProposalMessage
  | ApprovalPayload ActionApprovalMessage
  | RawPayload "(string \<times> pyval) list"

text \<open>\<open>timestamp\<close> is a point in time, counted in microseconds.\<close>

record AgentMessage =
  message_id :: string
  timestamp :: int
  sender_role :: AgentRole
  sender_id :: string
  recipient_role :: "AgentRole option"
  recipient_id :: "string option"
  message_type :: MessageType
  content :: payload
  task_id :: "string option"
  step_id :: "string option"
  priority :: int
  requires_response :: bool
  in_response_to :: "string option"

record MessageFilter =
  filter_sender_role :: "AgentRole option"
  filter_recipient_role :: "AgentRole option"
  filter_message_type :: "MessageType option"
  filter_task_id :: "string option"
  filter_step_id :: "string option"
  from_timestamp :: "int option"
  to_timestamp :: "int option"
  min_priority :: "int option"


section \<open>Message bus (core/agent_message_bus.py)\<close>

text \<open>
  An \<open>asyncio.Queue\<close> is a heap object; the bus tables hold references to it. A queue is
  named by the index at which \<open>queue_store\<close> keeps its pending messages, and
  \<open>subscribe\<close> allocates the next index. The four \<open>defaultdict\<close> tables are association
  lists from key to the list of queues registered under it. The \<open>_stats\<close> dictionary is
  the three counters. Registered synchronous handlers are opaque callables whose
  exceptions \<open>publish\<close> swallows; they are not part of the state.
\<close>

record AgentMessageBus =
  max_history_size :: int
  use_redis :: bool
  message_history :: "AgentMessage list"
  subscribers :: "(string \<times> nat list) list"
  role_subscribers :: "(AgentRole \<times> nat list) list"
  message_type_subscribers :: "(MessageType \<times> nat list) list"
  task_subscribers :: "(string \<times> nat list) list"
  broadcast_subscribers :: "nat list"
  messages_sent :: int
  messages_received :: int
  subscribers_count :: int
  queue_store :: "AgentMessage list list"

definition AgentMessageBus_init :: "int \<Rightarrow> bool \<Rightarrow> AgentMessageBus" where
  "AgentMessageBus_init max_size redis =
     \<lparr> max_history_size = max_size, use_redis = redis, message_history = [],
       subscribers = [], role_subscribers = [], message_type_subscribers = [],
       task_subscribers = [], broadcast_subscribers = [],
       messages_sent = 0, messages_received = 0, subscribers_count = 0,
       queue_store = [] \<rparr>"

text \<open>\<open>table.get(key, [])\<close>.\<close>

definition table_get :: "('k \<times> nat list) list \<Rightarrow> 'k \<Rightarrow> nat list" where
  "table_get tbl k = (case map_of tbl k of None \<Rightarrow> [] | Some qs \<Rightarrow> qs)"

text \<open>\<open>table[key].append(queue)\<close> on a \<open>defaultdict(list)\<close>.\<close>

fun table_append :: "('k \<times> nat list) list \<Rightarrow> 'k \<Rightarrow> nat \<Rightarrow> ('k \<times> nat list) list" where
  "table_append [] k q = [(k, [q])]"
| "table_append ((k', qs) # rest) k q =
     (if k' = k then (k', qs @ [q]) # rest else (k', qs) # table_append rest k q)"

text \<open>\<open>for queues in table.values(): if queue in queues: queues.remove(queue)\<close>.\<close>

definition table_remove :: "('k \<times> nat list) list \<Rightarrow> nat \<Rightarrow> ('k \<times> nat list) list" where
  "table_remove tbl q = map (\<lambda>(k, qs). (k, remove1 q qs)) tbl"

definition table_count :: "('k \<times> nat list) list \<Rightarrow> nat" where
  "table_count tbl = sum_list (map (\<lambda>(k, qs). length qs) tbl)"

definition count_subscribers :: "AgentMessageBus \<Rightarrow> int" where
  "count_subscribers bus =
     int (length (broadcast_subscribers bus) + table_count (subscribers bus)
          + table_count (role_subscribers bus) + table_count (message_type_subscribers bus)
          + table_count (task_subscribers bus))"

text \<open>
  The delivery set of \<open>publish\<close>: the union of the broadcast subscribers and of the
  queues registered under the recipient id, the recipient role, the message type and
  the task id (an absent or empty id selects nothing).
\<close>

definition queues_to_deliver :: "AgentMessageBus \<Rightarrow> AgentMessage \<Rightarrow> nat set" where
  "queues_to_deliver bus m =
     set (broadcast_subscribers bus)
     \<union> (case recipient_id m of None \<Rightarrow> {}
        | Some r \<Rightarrow> if r = [] then {} else set (table_get (subscribers bus) r))
     \<union> (case recipient_role m of None \<Rightarrow> {}
        | Some r \<Rightarrow> set (table_get (role_subscribers bus) r))
     \<union> set (table_get (message_type_subscribers bus) (message_type m))
     \<union> (case task_id m of None \<Rightarrow> {}
        | Some t \<Rightarrow> if t = [] then {} else set (table_get (task_subscribers bus) t))"

text \<open>\<open>await queue.put(message)\<close> for every queue of the delivery set, once each.\<close>

definition deliver :: "nat set \<Rightarrow> AgentMessage \<Rightarrow> AgentMessage list list \<Rightarrow> AgentMessage list list" where
  "deliver targets m store =
     map (\<lambda>(i, pending). if i \<in> targets then pending @ [m] else pending)
         (zip [0 ..< length store] store)"

definition publish :: "AgentMessageBus \<Rightarrow> AgentMessage \<Rightarrow> AgentMessageBus" where
  "publish bus m =
     (let appended = message_history bus @ [m];
          history = (if int (length appended) > max_history_size bus then tl appended
                     else appended)
      in bus \<lparr> message_history := history,
               messages_sent := messages_sent bus + 1,
               queue_store := deliver (queues_to_deliver bus m) m (queue_store bus) \<rparr>)"

text \<open>A sequence of \<open>publish\<close> calls, in order.\<close>

definition publish_all :: "AgentMessageBus \<Rightarrow> AgentMessage list \<Rightarrow> AgentMessageBus" where
  "publish_all bus ms = foldl publish bus ms"

definition matches_filter :: "MessageFilter \<Rightarrow> AgentMessage \<Rightarrow> bool" where
  "matches_filter f m \<longleftrightarrow>
     (case filter_sender_role f of None \<Rightarrow> True | Some r \<Rightarrow> sender_role m = r)
     \<and> (case filter_recipient_role f of None \<Rightarrow> True | Some r \<Rightarrow> recipient_role m = Some r)
     \<and> (case filter_message_type f of None \<Rightarrow> True | Some t \<Rightarrow> message_type m = t)
     \<and> (case filter_task_id f of None \<Rightarrow> True
         | Some t \<Rightarrow> t = [] \<or> task_id m = Some t)
     \<and> (case filter_step_id f of None \<Rightarrow> True
         | Some s \<Rightarrow> s = [] \<or> step_id m = Some s)
     \<and> (case from_timestamp f of None \<Rightarrow> True | Some t \<Rightarrow> \<not> timestamp m < t)
     \<and> (case to_timestamp f of None \<Rightarrow> True | Some t \<Rightarrow> \<not> timestamp m > t)
     \<and> (case min_priority f of None \<Rightarrow> True | Some p \<Rightarrow> \<not> priority m < p)"

definition get_message_history :: "AgentMessageBus \<Rightarrow> MessageFilter option \<Rightarrow> AgentMessage list" where
  "get_message_history bus flt =
     (case flt of
        None \<Rightarrow> message_history bus
      | Some f \<Rightarrow> filter (matches_filter f) (message_history bus))"

definition clear_history :: "AgentMessageBus \<Rightarrow> AgentMessageBus" where
  "clear_history bus = bus \<lparr> message_history := [] \<rparr>"


text \<open>
  \<open>subscribe\<close> allocates one new queue and registers it under every supplied dimension
  (\<open>if agent_id:\<close> and \<open>if task_id:\<close> skip an absent or empty string; a role and a
  message type, being enum members, are skipped only when absent).
\<close>

definition subscribe ::
  "AgentMessageBus \<Rightarrow> string option \<Rightarrow> AgentRole option \<Rightarrow> MessageType option
     \<Rightarrow> string option \<Rightarrow> bool \<Rightarrow> AgentMessageBus \<times> nat" where
  "subscribe bus agent_id_arg role_arg message_type_arg task_id_arg broadcast =
     (let queue = length (queue_store bus);
          bus0 = bus \<lparr> queue_store := queue_store bus @ [[]] \<rparr>;
          bus1 =
            (if broadcast
             then bus0 \<lparr> broadcast_subscribers := broadcast_subscribers bus0 @ [queue] \<rparr>
             else
               (let b1 = (case agent_id_arg of
                            None \<Rightarrow> bus0
                          | Some a \<Rightarrow> if a = [] then bus0
                              else bus0 \<lparr> subscribers := table_append (subscribers bus0) a queue \<rparr>);
                    b2 = (case role_arg of
                            None \<Rightarrow> b1
                          | Some r \<Rightarrow>
                              b1 \<lparr> role_subscribers := table_append (role_subscribers b1) r queue \<rparr>);
                    b3 = (case message_type_arg of
                            None \<Rightarrow> b2
                          | Some t \<Rightarrow>
                              b2 \<lparr> message_type_subscribers :=
                                     table_append (message_type_subscribers b2) t queue \<rparr>);
                    b4 = (case task_id_arg of
                            None \<Rightarrow> b3
                          | Some t \<Rightarrow> if t = [] then b3
                              else b3 \<lparr> task_subscribers := table_append (task_subscribers b3) t queue \<rparr>)
                in b4))
      in (bus1 \<lparr> subscribers_count := count_subscribers bus1 \<rparr>, queue))"

definition unsubscribe :: "AgentMessageBus \<Rightarrow> nat \<Rightarrow> AgentMessageBus" where
  "unsubscribe bus queue =
     (let bus1 = bus \<lparr> broadcast_subscribers := remove1 queue (broadcast_subscribers bus),
                       subscribers := table_remove (subscribers bus) queue,
                       role_subscribers := table_remove (role_subscribers bus) queue,
                       message_type_subscribers := table_remove (message_type_subscribers bus) queue,
                       task_subscribers := table_remove (task_subscribers bus) queue \<rparr>
      in bus1 \<lparr> subscribers_count := count_subscribers bus1 \<rparr>)"


section \<open>Agents (core/multi_agent_swarm.py)\<close>

text \<open>
  The bus is one object shared by every agent, so each operation takes the bus and
  returns it updated. \<open>message_queue\<close> is the reference the agent holds to its queue.
\<close>

record BaseAgent =
  agent_id :: string
  role :: AgentRole
  agent_task_id :: "string option"
  agent_step_id :: "string option"
  active :: bool
  message_queue :: "nat option"

definition BaseAgent_init ::
  "string \<Rightarrow> AgentRole \<Rightarrow> string option \<Rightarrow> string option \<Rightarrow> BaseAgent" where
  "BaseAgent_init aid r tid sid =
     \<lparr> agent_id = aid, role = r, agent_task_id = tid, agent_step_id = sid,
       active = False, message_queue = None \<rparr>"

definition start ::
  "AgentMessageBus \<Rightarrow> 'a BaseAgent_scheme \<Rightarrow> AgentMessageBus \<times> 'a BaseAgent_scheme" where
  "start bus agent =
     (let (bus', queue) =
            subscribe bus (Some (agent_id agent)) (Some (role agent)) None (agent_task_id agent) False
      in (bus', agent \<lparr> active := True, message_queue := Some queue \<rparr>))"

definition stop ::
  "AgentMessageBus \<Rightarrow> 'a BaseAgent_scheme \<Rightarrow> AgentMessageBus \<times> 'a BaseAgent_scheme" where
  "stop bus agent =
     (let bus' = (case message_queue agent of
                    None \<Rightarrow> bus
                  | Some queue \<Rightarrow> unsubscribe bus queue)
      in (bus', agent \<lparr> active := False \<rparr>))"

text \<open>
  \<open>send_message\<close>: \<open>mid\<close> is the string of the fresh \<open>uuid.uuid4()\<close> and \<open>now\<close> the
  value the timestamp's \<open>default_factory\<close> yields.
\<close>

definition send_message ::
  "AgentMessageBus \<Rightarrow> 'a BaseAgent_scheme \<Rightarrow> string \<Rightarrow> int \<Rightarrow> MessageType \<Rightarrow> payload
     \<Rightarrow> AgentRole option \<Rightarrow> string option \<Rightarrow> int \<Rightarrow> bool \<Rightarrow> string option
     \<Rightarrow> AgentMessageBus \<times> string" where
  "send_message bus agent mid now mtype body rcpt_role rcpt_id prio needs_response reply_to =
     (let message =
            \<lparr> message_id = mid, timestamp = now, sender_role = role agent,
              sender_id = agent_id agent, recipient_role = rcpt_role, recipient_id = rcpt_id,
              message_type = mtype, content = body, task_id = agent_task_id agent,
              step_id = agent_step_id agent, priority = prio,
              requires_response = needs_response, in_response_to = reply_to \<rparr>
      in (publish bus message, mid))"

record ValidatorAgent = BaseAgent +
  approval_mode :: string
  auto_approve_threshold :: real

definition ValidatorAgent_init :: "string \<Rightarrow> string \<Rightarrow> string \<Rightarrow> ValidatorAgent" where
  "ValidatorAgent_init aid tid sid =
     \<lparr> agent_id = aid, role = VALIDATOR, agent_task_id = Some tid, agent_step_id = Some sid,
       active = False, message_queue = None,
       approval_mode = ''auto'', auto_approve_threshold = 0.8 \<rparr>"

text \<open>
  \<open>ActionProposalMessage(**content)\<close>: pydantic validation of the payload dictionary,
  with the bounds \<open>ge=0.0, le=1.0\<close> on \<open>confidence\<close>.
\<close>

definition parse_action_proposal :: "payload \<Rightarrow> py_error + ActionProposalMessage" where
  "parse_action_proposal body =
     (case body of
        ProposalPayload p \<Rightarrow>
          if 0 \<le> confidence p \<and> confidence p \<le> 1 then Inr p
          else Inl (ValidationError ''confidence'')
      | _ \<Rightarrow> Inl (ValidationError ''ActionProposalMessage''))"

definition is_high_risk_action :: "ActionProposalMessage \<Rightarrow> bool" where
  "is_high_risk_action proposal \<longleftrightarrow>
     lower (ap_action_type proposal) \<in> set [''terminate'', ''complete'']
     \<or> risk_assessment proposal = ''high''"

text \<open>
  \<open>validate_action\<close>. \<open>float_str\<close> is Python's rendering of a float inside an f-string;
  \<open>mid\<close> and \<open>now\<close> are passed on to \<open>send_message\<close>.
\<close>

definition validate_action ::
  "(real \<Rightarrow> string) \<Rightarrow> AgentMessageBus \<Rightarrow> ValidatorAgent \<Rightarrow> AgentMessage \<Rightarrow> string \<Rightarrow> int
     \<Rightarrow> py_error + ((bool \<times> (string \<times> pyval) list) \<times> AgentMessageBus)" where
  "validate_action float_str bus v action_proposal mid now =
     (case parse_action_proposal (content action_proposal) of
        Inl e \<Rightarrow> Inl e
      | Inr proposal \<Rightarrow>
          (let is_high_risk = is_high_risk_action proposal;
               ok = (confidence proposal \<ge> auto_approve_threshold v \<and> \<not> is_high_risk);
               approval_message =
                 \<lparr> approved = ok,
                   approver_reasoning =
                     ''Action '' @ (if ok then ''approved'' else ''rejected'')
                     @ '' based on confidence '' @ float_str (confidence proposal)
                     @ '' and risk assessment'',
                   modifications = [],
                   conditions =
                     (if is_high_risk then [''Monitor for unexpected page changes''] else []) \<rparr>;
               (bus', sent_id) =
                 send_message bus v mid now
                   (if ok then ACTION_APPROVAL else ACTION_REJECTION)
                   (ApprovalPayload approval_message)
                   None None 9 False (Some (message_id action_proposal))
           in Inr ((ok, modifications approval_message), bus')))"


section \<open>Coordinator (core/multi_agent_swarm.py)\<close>

record AgentSwarmCoordinator =
  coord_task_id :: string
  coord_step_id :: string
  enable_swarm :: bool
  planner :: BaseAgent
  executor :: BaseAgent
  validator :: ValidatorAgent

text \<open>
  A Python call with keyword arguments binds each keyword to a parameter of the callee
  and raises \<open>TypeError\<close> for a keyword the callee does not declare.
  \<open>AgentMessageBus.get_message_history(self, filter=None)\<close> declares the one
  parameter \<open>filter\<close>. \<open>call_get_message_history\<close> is that method called with the
  keyword arguments \<open>kwargs\<close>; the value bound to \<open>filter\<close> is \<open>None\<close>, a
  \<open>MessageFilter\<close> or (ill-typed) a string, which has no \<open>sender_role\<close> attribute.
\<close>

datatype kwarg_value = KwNone | KwFilter MessageFilter | KwStr string

definition call_get_message_history ::
  "AgentMessageBus \<Rightarrow> (string \<times> kwarg_value) list \<Rightarrow> py_error + AgentMessage list" where
  "call_get_message_history bus kwargs =
     (case find (\<lambda>(k, v). k \<noteq> ''filter'') kwargs of
        Some (k, v) \<Rightarrow>
          Inl (TypeError (''AgentMessageBus.get_message_history() got an unexpected keyword argument ''
                          @ [CHR 0x27] @ k @ [CHR 0x27]))
      | None \<Rightarrow>
          (case map_of kwargs ''filter'' of
             None \<Rightarrow> Inr (get_message_history bus None)
           | Some KwNone \<Rightarrow> Inr (get_message_history bus None)
           | Some (KwFilter f) \<Rightarrow> Inr (get_message_history bus (Some f))
           | Some (KwStr s) \<Rightarrow>
               if s = [] then Inr (get_message_history bus None)
               else if message_history bus = [] then Inr []
               else Inl (AttributeError ''sender_role'')))"

text \<open>
  \<open>AgentSwarmCoordinator.get_message_history\<close>:
  \<open>return self.message_bus.get_message_history(task_id=self.task.task_id)\<close>.
\<close>

definition coordinator_get_message_history ::
  "AgentSwarmCoordinator \<Rightarrow> AgentMessageBus \<Rightarrow> py_error + AgentMessage list" where
  "coordinator_get_message_history c bus =
     call_get_message_history bus [(''task_id'', KwStr (coord_task_id c))]"


section \<open>Hybrid planner data (services/hybrid_planner.py, workflow/models/symbolic.py)\<close>

datatype SymbolicPredicateType =
    ELEMENT_EXISTS | ELEMENT_VISIBLE | ELEMENT_ENABLED | URL_PATTERN
  | ELEMENT_COUNT | ELEMENT_TEXT_CONTAINS | CUSTOM

datatype SymbolicConstraintOperator = OP_AND | OP_OR | OP_NOT | OP_IMPLIES

text \<open>
  Modelled from the spec: the enum \<open>ActionType\<close> (skyvern.webeye.actions.action_types)
  is not among the source files. It is string-valued (the planner reads \<open>.value\<close>
  and builds members from strings); a member is identified with its value.
\<close>

type_synonym ActionType = string

text \<open>
  Modelled from the spec: the \<open>Action\<close> classes (skyvern.webeye.actions.actions) are
  not among the source files. Candidate actions each carry "at least an action_type and
  optional element_id" (\<open>getattr(action, "element_id", None)\<close>); \<open>reasoning\<close> and
  \<open>action_text\<close> are the further constructor arguments \<open>reasoning=\<close> and \<open>text=\<close>
  that the planner passes when it builds actions, and that validation never reads.
\<close>

record Action =
  action_type :: ActionType
  element_id :: "string option"
  reasoning :: "string option"
  action_text :: "string option"

text \<open>
  Modelled from the spec: \<open>ScrapedPage\<close> (skyvern.webeye.scraper.scraper) is not among
  the source files. The snapshot is a read-only view of page elements, "each with an id,
  tag name, text, and attribute map"; an element is a dictionary of which the planner
  reads the keys \<open>id\<close>, \<open>tagName\<close>, \<open>attributes\<close> (a dictionary, empty when the
  key is missing) and \<open>text\<close>.
\<close>

record element =
  elem_id :: "string option"
  tagName :: "string option"
  attributes :: "(string \<times> pyval) list"
  elem_text :: "string option"

record ScrapedPage =
  elements :: "element list"

text \<open>
  Two library calls are parameters of the model. \<open>re_match pattern url\<close> is
  \<open>re.match(pattern, url)\<close>: a match object, \<open>None\<close>, \<open>re.error\<close> for a pattern that
  the regular expression compiler refuses, or another exception (CPython raises
  \<open>OverflowError\<close> for the pattern \<open>a{4294967296}\<close> and \<open>RecursionError\<close> for a long
  run of opening parentheses). \<open>py_eval expression page url\<close> is
  \<open>eval(expression, {"__builtins__": {}}, {"page": ..., "url": ...})\<close>: a value, an
  exception of class \<open>Exception\<close>, or an exception outside that class.
\<close>

datatype re_outcome = ReMatched | ReNoMatch | ReError | ReRaised py_error

datatype eval_outcome = EvalValue pyval | EvalRaised | EvalRaisedBase py_error

record py_runtime =
  re_match :: "string \<Rightarrow> string \<Rightarrow> re_outcome"
  py_eval :: "string \<Rightarrow> ScrapedPage \<Rightarrow> string option \<Rightarrow> eval_outcome"

record PlannerPredicate =
  predicate_type :: SymbolicPredicateType
  target :: "string option"
  expected_value :: pyval
  operator :: SymbolicConstraintOperator
  pred_metadata :: "(string \<times> pyval) list"

record PlannerAffordance =
  aff_action_type :: ActionType
  aff_element_id :: "string option"
  preconditions :: "PlannerPredicate list"
  postconditions :: "PlannerPredicate list"
  aff_priority :: int
  aff_metadata :: "(string \<times> pyval) list"

record PlannerGuard =
  name :: string
  guard_predicates :: "PlannerPredicate list"
  action_types_blocked :: "ActionType list"
  message :: "string option"

record AuditData =
  total_actions :: nat
  affordances_checked :: nat
  guards_checked :: nat
  audit_task_id :: "string option"
  audit_filtered_actions :: nat
  audit_rejected_actions :: nat
  audit_warnings :: "string list"

text \<open>
  A rejection reason is whatever the code appends: a string, or the value (possibly
  \<open>None\<close>) that \<open>metadata.get("failure_reason")\<close> returned.
\<close>

record PlanValidationResult =
  valid :: bool
  filtered_actions :: "Action list"
  rejected_actions :: "(Action \<times> pyval) list"
  warnings :: "string list"
  audit_data :: AuditData

record HybridPlanner =
  predicates :: "PlannerPredicate list"
  affordances :: "PlannerAffordance list"
  guards :: "PlannerGuard list"
  loop_detection_window :: int
  action_history :: "(string \<times> ActionType) list"
  fallback_actions :: "Action list"

definition HybridPlanner_init :: HybridPlanner where
  "HybridPlanner_init =
     \<lparr> predicates = [], affordances = [], guards = [], loop_detection_window = 5,
       action_history = [], fallback_actions = [] \<rparr>"

definition register_predicate :: "HybridPlanner \<Rightarrow> PlannerPredicate \<Rightarrow> HybridPlanner" where
  "register_predicate p predicate = p \<lparr> predicates := predicates p @ [predicate] \<rparr>"

definition register_affordance :: "HybridPlanner \<Rightarrow> PlannerAffordance \<Rightarrow> HybridPlanner" where
  "register_affordance p affordance = p \<lparr> affordances := affordances p @ [affordance] \<rparr>"

definition register_guard :: "HybridPlanner \<Rightarrow> PlannerGuard \<Rightarrow> HybridPlanner" where
  "register_guard p guard = p \<lparr> guards := guards p @ [guard] \<rparr>"

definition clear :: "HybridPlanner \<Rightarrow> HybridPlanner" where
  "clear p = p \<lparr> predicates := [], affordances := [], guards := [],
                 fallback_actions := [], action_history := [] \<rparr>"


section \<open>Predicate evaluation\<close>

text \<open>\<open>d.get(key, default)\<close> and \<open>d.get(key)\<close>.\<close>

definition dict_get :: "(string \<times> pyval) list \<Rightarrow> string \<Rightarrow> pyval \<Rightarrow> pyval" where
  "dict_get d k dflt = (case map_of d k of None \<Rightarrow> dflt | Some v \<Rightarrow> v)"

text \<open>
  \<open>disabled in {True, "true", "disabled"}\<close>: membership by hash and equality, so the
  integer \<open>1\<close> is found (it equals \<open>True\<close>), and an unhashable value raises.
\<close>

fun in_disabled_set :: "pyval \<Rightarrow> py_error + bool" where
  "in_disabled_set (PyBool b) = Inr b"
| "in_disabled_set (PyInt n) = Inr (n = 1)"
| "in_disabled_set (PyStr s) = Inr (s = ''true'' \<or> s = ''disabled'')"
| "in_disabled_set PyNone = Inr False"
| "in_disabled_set (PyList xs) = Inl (TypeError ''unhashable type'')"
| "in_disabled_set (PyDict kvs) = Inl (TypeError ''unhashable type'')"

text \<open>\<open>count == expected_value\<close> for an integer \<open>count\<close>.\<close>

fun count_equals :: "nat \<Rightarrow> pyval \<Rightarrow> bool" where
  "count_equals c (PyInt n) = (int c = n)"
| "count_equals c (PyBool b) = (c = (if b then 1 else 0))"
| "count_equals c v = False"

definition evaluate ::
  "py_runtime \<Rightarrow> PlannerPredicate \<Rightarrow> ScrapedPage option \<Rightarrow> string option \<Rightarrow> py_error + bool" where
  "evaluate rt p scraped_page current_url =
     (if predicate_type p = URL_PATTERN then
        (case current_url of
           None \<Rightarrow> Inr False
         | Some url \<Rightarrow>
             (case target p of
                None \<Rightarrow> Inr False
              | Some pat \<Rightarrow>
                  if url = [] \<or> pat = [] then Inr False
                  else (case re_match rt pat url of
                          ReMatched \<Rightarrow> Inr True
                        | ReNoMatch \<Rightarrow> Inr False
                        | ReError \<Rightarrow> Inr False
                        | ReRaised err \<Rightarrow> Inl err)))
      else
        (case scraped_page of
           None \<Rightarrow> Inr False
         | Some page \<Rightarrow>
             if elements page = [] then Inr False
             else
               (case predicate_type p of
                  ELEMENT_EXISTS \<Rightarrow>
                    Inr (list_ex (\<lambda>e. elem_id e = target p) (elements page))
                | ELEMENT_VISIBLE \<Rightarrow>
                    (case find (\<lambda>e. elem_id e = target p) (elements page) of
                       None \<Rightarrow> Inr False
                     | Some e \<Rightarrow>
                         (case dict_get (attributes e) ''style'' (PyStr []) of
                            PyStr style \<Rightarrow>
                              (let style_norm = filter (\<lambda>c. c \<noteq> CHR '' '') style
                               in if sublist ''display:none'' style_norm
                                     \<or> sublist ''visibility:hidden'' style_norm
                                  then Inr False else Inr True)
                          | _ \<Rightarrow> Inl (AttributeError ''replace'')))
                | ELEMENT_ENABLED \<Rightarrow>
                    (case find (\<lambda>e. elem_id e = target p) (elements page) of
                       None \<Rightarrow> Inr False
                     | Some e \<Rightarrow>
                         (case in_disabled_set (dict_get (attributes e) ''disabled'' PyNone) of
                            Inl err \<Rightarrow> Inl err
                          | Inr is_disabled \<Rightarrow> Inr (\<not> is_disabled)))
                | ELEMENT_COUNT \<Rightarrow>
                    (let count = length (filter (\<lambda>e. elem_id e = target p) (elements page))
                     in if expected_value p \<noteq> PyNone
                        then Inr (count_equals count (expected_value p))
                        else Inr (count > 0))
                | ELEMENT_TEXT_CONTAINS \<Rightarrow>
                    (case find (\<lambda>e. elem_id e = target p) (elements page) of
                       None \<Rightarrow> Inr False
                     | Some e \<Rightarrow>
                         (let text = (case elem_text e of None \<Rightarrow> [] | Some t \<Rightarrow> t);
                              expected = (if truthy (expected_value p) then expected_value p
                                          else PyStr [])
                          in case expected of
                               PyStr s \<Rightarrow> Inr (sublist s text)
                             | _ \<Rightarrow> Inl (TypeError ''in <string> requires string as left operand'')))
                | CUSTOM \<Rightarrow>
                    (let expression = dict_get (pred_metadata p) ''expression'' PyNone
                     in if \<not> truthy expression then Inr False
                        else (case expression of
                                PyStr src \<Rightarrow>
                                  (case py_eval rt src page current_url of
                                     EvalValue v \<Rightarrow> Inr (truthy v)
                                   | EvalRaised \<Rightarrow> Inr False
                                   | EvalRaisedBase err \<Rightarrow> Inl err)
                              | _ \<Rightarrow> Inr False))
                | URL_PATTERN \<Rightarrow> Inr False)))"

text \<open>\<open>all(predicate.evaluate(...) for predicate in ps)\<close>: left to right, stopping at the
  first false predicate; an exception of one evaluation is the exception of the whole.\<close>

fun all_hold ::
  "py_runtime \<Rightarrow> PlannerPredicate list \<Rightarrow> ScrapedPage option \<Rightarrow> string option \<Rightarrow> py_error + bool" where
  "all_hold rt [] page url = Inr True"
| "all_hold rt (q # qs) page url =
     (case evaluate rt q page url of
        Inl e \<Rightarrow> Inl e
      | Inr b \<Rightarrow> if b then all_hold rt qs page url else Inr False)"

definition can_execute ::
  "py_runtime \<Rightarrow> PlannerAffordance \<Rightarrow> ScrapedPage option \<Rightarrow> string option \<Rightarrow> py_error + bool" where
  "can_execute rt affordance page url = all_hold rt (preconditions affordance) page url"

definition is_active ::
  "py_runtime \<Rightarrow> PlannerGuard \<Rightarrow> ScrapedPage option \<Rightarrow> string option \<Rightarrow> py_error + bool" where
  "is_active rt guard page url = all_hold rt (guard_predicates guard) page url"

definition blocks_action :: "PlannerGuard \<Rightarrow> Action \<Rightarrow> bool" where
  "blocks_action guard action \<longleftrightarrow>
     list_ex (\<lambda>blocked. action_type action = blocked) (action_types_blocked guard)"


section \<open>Validation of candidate actions\<close>

text \<open>\<open>guard.message or f"Guard '{guard.name}' blocked action"\<close>.\<close>

definition guard_reason :: "PlannerGuard \<Rightarrow> string" where
  "guard_reason guard =
     (let dflt = ''Guard '' @ [CHR 0x27] @ name guard @ [CHR 0x27] @ '' blocked action''
      in case message guard of
           None \<Rightarrow> dflt
         | Some m \<Rightarrow> if m \<noteq> [] then m else dflt)"

text \<open>The guard loop: the value of \<open>rejection_reason\<close> when the loop ends.\<close>

fun check_guards ::
  "py_runtime \<Rightarrow> PlannerGuard list \<Rightarrow> ScrapedPage option \<Rightarrow> string option \<Rightarrow> Action
     \<Rightarrow> py_error + string option" where
  "check_guards rt [] page url action = Inr None"
| "check_guards rt (g # gs) page url action =
     (case is_active rt g page url of
        Inl e \<Rightarrow> Inl e
      | Inr act \<Rightarrow>
          if act \<and> blocks_action g action then Inr (Some (guard_reason g))
          else check_guards rt gs page url action)"

definition matching_affordances :: "HybridPlanner \<Rightarrow> Action \<Rightarrow> PlannerAffordance list" where
  "matching_affordances p action =
     filter (\<lambda>affordance. aff_action_type affordance = action_type action
                \<and> (aff_element_id affordance = None
                    \<or> aff_element_id affordance = element_id action))
            (affordances p)"

text \<open>
  \<open>list.sort(key=..., reverse=True)\<close>: a stable sort in descending key order, elements
  of equal key staying in their original order (the list is reversed, sorted stably in
  ascending order, and reversed again).
\<close>

definition sort_reverse :: "('a \<Rightarrow> int) \<Rightarrow> 'a list \<Rightarrow> 'a list" where
  "sort_reverse key xs = rev (sort_key key (rev xs))"

definition affordance_rejection_reason :: "PlannerAffordance \<Rightarrow> pyval" where
  "affordance_rejection_reason selected =
     (if aff_metadata selected \<noteq> []
      then dict_get (aff_metadata selected) ''failure_reason'' PyNone
      else PyStr ''Affordance preconditions not met'')"

text \<open>
  The body of the loop over the candidate actions decides one action: accepted,
  accepted with the warning that no affordance is registered for it, or rejected with
  a reason.
\<close>

datatype verdict = Accept | AcceptUnmatched | Reject pyval

definition check_affordances ::
  "py_runtime \<Rightarrow> HybridPlanner \<Rightarrow> ScrapedPage option \<Rightarrow> string option \<Rightarrow> Action
     \<Rightarrow> py_error + verdict" where
  "check_affordances rt p page url action =
     (if affordances p \<noteq> [] then
        (let matching = matching_affordances p action
         in if matching \<noteq> [] then
              (let selected = hd (sort_reverse aff_priority matching)
               in case can_execute rt selected page url of
                    Inl e \<Rightarrow> Inl e
                  | Inr ok \<Rightarrow>
                      if ok then Inr Accept
                      else Inr (Reject (affordance_rejection_reason selected)))
            else Inr AcceptUnmatched)
      else Inr Accept)"

definition process_action ::
  "py_runtime \<Rightarrow> HybridPlanner \<Rightarrow> ScrapedPage option \<Rightarrow> string option \<Rightarrow> Action
     \<Rightarrow> py_error + verdict" where
  "process_action rt p page url action =
     (case check_guards rt (guards p) page url action of
        Inl e \<Rightarrow> Inl e
      | Inr rejection_reason \<Rightarrow>
          (case rejection_reason of
             None \<Rightarrow> check_affordances rt p page url action
           | Some r \<Rightarrow>
               if r \<noteq> [] then Inr (Reject (PyStr r))
               else check_affordances rt p page url action))"

text \<open>The loop over the actions, threading the three result lists.\<close>

fun filter_actions ::
  "py_runtime \<Rightarrow> HybridPlanner \<Rightarrow> ScrapedPage option \<Rightarrow> string option \<Rightarrow> Action list
     \<Rightarrow> Action list \<times> (Action \<times> pyval) list \<times> string list
     \<Rightarrow> py_error + (Action list \<times> (Action \<times> pyval) list \<times> string list)" where
  "filter_actions rt p page url [] acc = Inr acc"
| "filter_actions rt p page url (a # rest) (filtered, rejected, warns) =
     (case process_action rt p page url a of
        Inl e \<Rightarrow> Inl e
      | Inr Accept \<Rightarrow> filter_actions rt p page url rest (filtered @ [a], rejected, warns)
      | Inr AcceptUnmatched \<Rightarrow>
          filter_actions rt p page url rest
            (filtered @ [a], rejected,
             warns @ [''No affordance registered for action '' @ action_type a])
      | Inr (Reject reason) \<Rightarrow>
          filter_actions rt p page url rest (filtered, rejected @ [(a, reason)], warns))"

text \<open>\<open>getattr(action, "element_id", "") or "global"\<close>, paired with the action type.\<close>

definition history_entry :: "Action \<Rightarrow> string \<times> ActionType" where
  "history_entry action =
     ((case element_id action of
         None \<Rightarrow> ''global''
       | Some e \<Rightarrow> if e \<noteq> [] then e else ''global''),
      action_type action)"

definition detect_loops :: "HybridPlanner \<Rightarrow> Action list \<Rightarrow> string option \<times> HybridPlanner" where
  "detect_loops p actions =
     (let w = loop_detection_window p in
      if w \<le> 0 then (None, p)
      else
        (let appended = action_history p @ map history_entry actions;
             max_history = w * 2;
             history = (if int (length appended) > max_history
                        then py_slice appended (Some (- max_history)) None
                        else appended);
             p' = p \<lparr> action_history := history \<rparr>
         in if int (length history) < w * 2 then (None, p')
            else
              (let recent = py_slice history (Some (- w)) None;
                   previous = py_slice history (Some (- w * 2)) (Some (- w))
               in if recent = previous
                  then (Some (''Potential loop detected: repeated sequence of ''
                              @ string_of_int w @ '' actions''), p')
                  else (None, p'))))"

text \<open>
  \<open>validate_and_filter_actions\<close> returns the result together with the planner, whose
  history \<open>_detect_loops\<close> has updated. An exception leaves the loop over the actions
  before anything was written to the planner.
\<close>

definition validate_and_filter_actions ::
  "py_runtime \<Rightarrow> HybridPlanner \<Rightarrow> Action list \<Rightarrow> ScrapedPage option \<Rightarrow> string option
     \<Rightarrow> string option \<Rightarrow> py_error + (PlanValidationResult \<times> HybridPlanner)" where
  "validate_and_filter_actions rt p actions page url task =
     (case filter_actions rt p page url actions ([], [], []) of
        Inl e \<Rightarrow> Inl e
      | Inr (filtered, rejected, warns) \<Rightarrow>
          (let (loop_warning, p') = detect_loops p filtered;
               warns' = (case loop_warning of
                           None \<Rightarrow> warns
                         | Some lw \<Rightarrow> if lw \<noteq> [] then warns @ [lw] else warns)
           in Inr (\<lparr> valid = (filtered \<noteq> []),
                      filtered_actions = filtered,
                      rejected_actions = rejected,
                      warnings = warns',
                      audit_data =
                        \<lparr> total_actions = length actions,
                          affordances_checked = length (affordances p),
                          guards_checked = length (guards p),
                          audit_task_id = task,
                          audit_filtered_actions = length filtered,
                          audit_rejected_actions = length rejected,
                          audit_warnings = warns' \<rparr> \<rparr>,
                   p')))"


section \<open>Well-formed bus and agent states\<close>

text \<open>
  The states that the bus operations reach from a fresh bus: every registered queue has
  been allocated, no list registers a queue twice, and the subscriber counter agrees
  with the tables. An agent refers to an allocated queue, and the queue of an inactive
  agent is registered nowhere.
\<close>

definition table_queues :: "('k \<times> nat list) list \<Rightarrow> nat set" where
  "table_queues tbl = (\<Union>(k, qs) \<in> set tbl. set qs)"

definition subscribed_queues :: "AgentMessageBus \<Rightarrow> nat set" where
  "subscribed_queues bus =
     set (broadcast_subscribers bus) \<union> table_queues (subscribers bus)
     \<union> table_queues (role_subscribers bus) \<union> table_queues (message_type_subscribers bus)
     \<union> table_queues (task_subscribers bus)"

definition table_distinct :: "('k \<times> nat list) list \<Rightarrow> bool" where
  "table_distinct tbl \<longleftrightarrow> (\<forall>(k, qs) \<in> set tbl. distinct qs)"

definition bus_wf :: "AgentMessageBus \<Rightarrow> bool" where
  "bus_wf bus \<longleftrightarrow>
     (\<forall>q \<in> subscribed_queues bus. q < length (queue_store bus))
     \<and> distinct (broadcast_subscribers bus)
     \<and> table_distinct (subscribers bus) \<and> table_distinct (role_subscribers bus)
     \<and> table_distinct (message_type_subscribers bus) \<and> table_distinct (task_subscribers bus)
     \<and> subscribers_count bus = count_subscribers bus"

definition agent_wf :: "AgentMessageBus \<Rightarrow> 'a BaseAgent_scheme \<Rightarrow> bool" where
  "agent_wf bus agent \<longleftrightarrow>
     (case message_queue agent of
        None \<Rightarrow> True
      | Some q \<Rightarrow> q < length (queue_store bus)
                  \<and> (\<not> active agent \<longrightarrow> q \<notin> subscribed_queues bus))"


section \<open>The authoritative affordance, as the specification words it\<close>

text \<open>
  Among the matching affordances the one of highest priority is authoritative, and
  among those of equal highest priority the one registered first: an affordance gives
  way only to a later one of strictly higher priority.
\<close>

fun authoritative_affordance :: "PlannerAffordance list \<Rightarrow> PlannerAffordance option" where
  "authoritative_affordance [] = None"
| "authoritative_affordance (x # xs) =
     (case authoritative_affordance xs of
        None \<Rightarrow> Some x
      | Some y \<Rightarrow> if aff_priority x < aff_priority y then Some y else Some x)"


section \<open>Sequences of planner operations\<close>

text \<open>
  The operations that a caller applies to a planner. An exception of
  \<open>validate_and_filter_actions\<close> leaves the planner as it was, since the history is
  written only after the loop over the actions.
\<close>

datatype planner_op =
    Validate "Action list" "ScrapedPage option" "string option" "string option"
  | Clear
  | RegisterPredicate PlannerPredicate
  | RegisterAffordance PlannerAffordance
  | RegisterGuard PlannerGuard

fun apply_planner_op :: "py_runtime \<Rightarrow> HybridPlanner \<Rightarrow> planner_op \<Rightarrow> HybridPlanner" where
  "apply_planner_op rt p (Validate actions page url task) =
     (case validate_and_filter_actions rt p actions page url task of
        Inl e \<Rightarrow> p
      | Inr (res, p') \<Rightarrow> p')"
| "apply_planner_op rt p Clear = clear p"
| "apply_planner_op rt p (RegisterPredicate q) = register_predicate p q"
| "apply_planner_op rt p (RegisterAffordance a) = register_affordance p a"
| "apply_planner_op rt p (RegisterGuard g) = register_guard p g"

definition run_planner_ops :: "py_runtime \<Rightarrow> HybridPlanner \<Rightarrow> planner_op list \<Rightarrow> HybridPlanner" where
  "run_planner_ops rt p cmds = foldl (apply_planner_op rt) p cmds"


section \<open>Example data\<close>

definition example_message :: "string \<Rightarrow> AgentMessage" where
  "example_message mid =
     \<lparr> message_id = mid, timestamp = 0, sender_role = PLANNER, sender_id = ''planner-t1'',
       recipient_role = None, recipient_id = None, message_type = THOUGHT,
       content = RawPayload [(''thought'', PyStr ''Test'')], task_id = Some ''t1'',
       step_id = Some ''s1'', priority = 0, requires_response = False,
       in_response_to = None \<rparr>"

definition example_proposal :: "string \<Rightarrow> real \<Rightarrow> ActionProposalMessage" where
  "example_proposal atype conf =
     \<lparr> ap_action_type = atype, ap_action_data = [], rationale = ''Executing action'',
       risk_assessment = ''low'', confidence = conf, ap_fallback_actions = [] \<rparr>"

definition example_proposal_message :: "string \<Rightarrow> real \<Rightarrow> AgentMessage" where
  "example_proposal_message atype conf =
     \<lparr> message_id = ''proposal-1'', timestamp = 0, sender_role = EXECUTOR,
       sender_id = ''executor-t1'', recipient_role = Some VALIDATOR, recipient_id = None,
       message_type = ACTION_PROPOSAL, content = ProposalPayload (example_proposal atype conf),
       task_id = Some ''t1'', step_id = Some ''s1'', priority = 0,
       requires_response = True, in_response_to = None \<rparr>"

definition example_coordinator :: AgentSwarmCoordinator where
  "example_coordinator =
     \<lparr> coord_task_id = ''t1'', coord_step_id = ''s1'', enable_swarm = True,
       planner = BaseAgent_init ''planner-t1'' PLANNER (Some ''t1'') (Some ''s1''),
       executor = BaseAgent_init ''executor-t1'' EXECUTOR (Some ''t1'') (Some ''s1''),
       validator = ValidatorAgent_init ''validator-t1'' ''t1'' ''s1'' \<rparr>"

definition example_bus :: AgentMessageBus where
  "example_bus = AgentMessageBus_init 1000 False"

definition example_agent :: BaseAgent where
  "example_agent = BaseAgent_init ''planner-t1'' PLANNER (Some ''t1'') (Some ''s1'')"

text \<open>The bus and the agent after \<open>start()\<close>, and after \<open>start()\<close> then \<open>stop()\<close>.\<close>

definition started_bus :: AgentMessageBus where
  "started_bus = fst (start example_bus example_agent)"

definition started_agent :: BaseAgent where
  "started_agent = snd (start example_bus example_agent)"

definition stopped_bus :: AgentMessageBus where
  "stopped_bus = fst (stop started_bus started_agent)"

definition stopped_agent :: BaseAgent where
  "stopped_agent = snd (stop started_bus started_agent)"

text \<open>
  A runtime for the examples: the pattern \<open>[\<close> does not compile, every other pattern
  matches the URLs it is a prefix of, and the expression \<open>1/0\<close> raises.
\<close>

definition example_rt :: py_runtime where
  "example_rt =
     \<lparr> re_match = (\<lambda>pat url. if pat = ''['' then ReError
                                 else if prefix pat url then ReMatched else ReNoMatch),
       py_eval = (\<lambda>src page url. if src = ''1/0'' then EvalRaised
                                   else EvalValue (PyBool True)) \<rparr>"

definition example_page :: ScrapedPage where
  "example_page =
     \<lparr> elements =
         [\<lparr> elem_id = Some ''submit_btn'', tagName = Some ''button'', attributes = [],
            elem_text = Some ''Submit'' \<rparr>] \<rparr>"

definition mk_predicate :: "SymbolicPredicateType \<Rightarrow> string \<Rightarrow> PlannerPredicate" where
  "mk_predicate ptype tgt =
     \<lparr> predicate_type = ptype, target = Some tgt, expected_value = PyNone,
       operator = OP_AND, pred_metadata = [] \<rparr>"


definition click :: "string \<Rightarrow> Action" where
  "click e = \<lparr> action_type = ''click'', element_id = Some e, reasoning = None,
               action_text = None \<rparr>"

definition mk_affordance ::
  "string \<Rightarrow> PlannerPredicate list \<Rightarrow> int \<Rightarrow> (string \<times> pyval) list \<Rightarrow> PlannerAffordance" where
  "mk_affordance e pre prio md =
     \<lparr> aff_action_type = ''click'', aff_element_id = Some e, preconditions = pre,
       postconditions = [], aff_priority = prio, aff_metadata = md \<rparr>"

definition mk_guard :: "string \<Rightarrow> PlannerPredicate list \<Rightarrow> string option \<Rightarrow> PlannerGuard" where
  "mk_guard n ps msg =
     \<lparr> name = n, guard_predicates = ps, action_types_blocked = [''click''], message = msg \<rparr>"

text \<open>
  A planner with two guards, of which only the second is active on \<open>example_page\<close>,
  and one affordance.
\<close>

definition login_wall :: PlannerGuard where
  "login_wall = mk_guard ''login_wall'' [mk_predicate ELEMENT_EXISTS ''login_form'']
                  (Some ''Log in first'')"

definition submit_freeze :: PlannerGuard where
  "submit_freeze = mk_guard ''submit_freeze'' [mk_predicate ELEMENT_EXISTS ''submit_btn'']
                     (Some ''Submission is frozen'')"

definition guarded_planner :: HybridPlanner where
  "guarded_planner =
     register_affordance
       (register_guard (register_guard HybridPlanner_init login_wall) submit_freeze)
       (mk_affordance ''submit_btn'' [] 0 [])"

text \<open>
  A planner with six affordances. For a click on \<open>submit_btn\<close> four of them match:
  priorities 5, 7 (any element), 10 and 10; only the preconditions of the first of
  priority 10 hold on \<open>example_page\<close>. The affordance of priority 99 is for another
  element and the one of priority 50 for another action type.
\<close>

definition other_element_affordance :: PlannerAffordance where
  "other_element_affordance =
     mk_affordance ''cancel_btn'' [mk_predicate ELEMENT_EXISTS ''missing''] 99 []"

definition low_affordance :: PlannerAffordance where
  "low_affordance = mk_affordance ''submit_btn'' [mk_predicate ELEMENT_EXISTS ''missing''] 5 []"

definition wildcard_affordance :: PlannerAffordance where
  "wildcard_affordance =
     (mk_affordance [] [mk_predicate ELEMENT_EXISTS ''missing''] 7 [])
       \<lparr> aff_element_id := None \<rparr>"

definition high_affordance :: PlannerAffordance where
  "high_affordance = mk_affordance ''submit_btn'' [mk_predicate ELEMENT_EXISTS ''submit_btn''] 10 []"

definition late_affordance :: PlannerAffordance where
  "late_affordance = mk_affordance ''submit_btn'' [mk_predicate ELEMENT_EXISTS ''missing''] 10
                       [(''failure_reason'', PyStr ''late'')]"

definition other_type_affordance :: PlannerAffordance where
  "other_type_affordance =
     (mk_affordance [] [mk_predicate ELEMENT_EXISTS ''missing''] 50 [])
       \<lparr> aff_action_type := ''input_text'', aff_element_id := None \<rparr>"

definition priority_planner :: HybridPlanner where
  "priority_planner =
     HybridPlanner_init
       \<lparr> affordances := [other_element_affordance, low_affordance, wildcard_affordance,
                          high_affordance, late_affordance, other_type_affordance] \<rparr>"

text \<open>
  A planner whose only affordance has failing preconditions and a metadata dictionary
  without the key \<open>failure_reason\<close>.
\<close>

definition unexplained_affordance :: PlannerAffordance where
  "unexplained_affordance =
     mk_affordance ''submit_btn'' [mk_predicate ELEMENT_EXISTS ''missing''] 0
       [(''owner'', PyStr ''qa'')]"

definition unexplained_planner :: HybridPlanner where
  "unexplained_planner = register_affordance HybridPlanner_init unexplained_affordance"

text \<open>
  Planners with a given loop detection window, a click without an element id, and
  typing a text into an element.
\<close>

definition planner_with_window :: "int \<Rightarrow> HybridPlanner" where
  "planner_with_window w = HybridPlanner_init \<lparr> loop_detection_window := w \<rparr>"

definition click_anywhere :: Action where
  "click_anywhere = \<lparr> action_type = ''click'', element_id = None, reasoning = None,
                      action_text = None \<rparr>"

definition input_text :: "string \<Rightarrow> string \<Rightarrow> Action" where
  "input_text e t = \<lparr> action_type = ''input_text'', element_id = Some e, reasoning = None,
                      action_text = Some t \<rparr>"





section \<open>Ring-buffer property of the history\<close>

lemma publish_history:
  "message_history (publish bus m) =
     (if int (length (message_history bus)) + 1 > max_history_size bus
      then tl (message_history bus @ [m]) else message_history bus @ [m])"
  by (simp add: publish_def Let_def)

lemma publish_max_history_size [simp]:
  "max_history_size (publish bus m) = max_history_size bus"
  by (simp add: publish_def Let_def)

lemma publish_all_max_history_size [simp]:
  "max_history_size (publish_all bus ms) = max_history_size bus"
  unfolding publish_all_def by (induction ms arbitrary: bus) simp_all

lemma publish_all_snoc:
  "publish_all bus (ms @ [m]) = publish (publish_all bus ms) m"
  by (simp add: publish_all_def)

lemma tl_drop_snoc:
  assumes "n \<le> length ms"
  shows "tl (drop (length ms - n) ms @ [m]) = drop (Suc (length ms) - n) (ms @ [m])"
proof (cases "n = 0")
  case True
  then show ?thesis by simp
next
  case False
  let ?k = "length ms - n"
  from False assms have k: "?k < length ms" "Suc (length ms) - n = Suc ?k" by arith+
  then have "drop ?k ms \<noteq> []" by simp
  then have "tl (drop ?k ms @ [m]) = tl (drop ?k ms) @ [m]" by simp
  also have "\<dots> = drop (Suc ?k) ms @ [m]" by (simp add: drop_Suc tl_drop)
  also have "\<dots> = drop (Suc ?k) (ms @ [m])" using k by simp
  finally show ?thesis using k by simp
qed

lemma publish_all_history:
  assumes "0 \<le> max_history_size bus" "message_history bus = []"
  shows "message_history (publish_all bus ms) = drop (length ms - nat (max_history_size bus)) ms"
proof (induction ms rule: rev_induct)
  case Nil
  then show ?case by (simp add: publish_all_def assms)
next
  case (snoc m ms)
  let ?n = "nat (max_history_size bus)"
  let ?h = "message_history (publish_all bus ms)"
  have h: "?h = drop (length ms - ?n) ms" by (rule snoc.IH)
  have len: "length ?h = min (length ms) ?n" unfolding h by simp
  show ?case
  proof (cases "length ms < ?n")
    case True
    then have "\<not> int (length ?h) + 1 > max_history_size bus" using len assms by simp
    then show ?thesis using True h by (simp add: publish_all_snoc publish_history)
  next
    case False
    then have over: "int (length ?h) + 1 > max_history_size bus" using len assms by simp
    have "tl (drop (length ms - ?n) ms @ [m]) = drop (Suc (length ms) - ?n) (ms @ [m])"
      by (rule tl_drop_snoc) (use False in simp)
    then show ?thesis using over h by (simp add: publish_all_snoc publish_history)
  qed
qed

text \<open>
  C4. On a fresh bus of capacity \<open>N\<close> (a capacity is not negative), after any sequence of
  \<open>publish\<close> calls \<open>get_message_history()\<close> has \<open>min (number of publishes) N\<close> entries,
  and they are the last that many published messages in publish order.
\<close>

theorem C4_history_ring_buffer:
  assumes "0 \<le> N"
  shows "get_message_history (publish_all (AgentMessageBus_init N redis) ms) None
           = drop (length ms - min (length ms) (nat N)) ms
         \<and> length (get_message_history (publish_all (AgentMessageBus_init N redis) ms) None)
           = min (length ms) (nat N)"
proof -
  let ?bus = "AgentMessageBus_init N redis"
  have "message_history (publish_all ?bus ms) = drop (length ms - nat (max_history_size ?bus)) ms"
    by (rule publish_all_history) (simp_all add: AgentMessageBus_init_def assms)
  then have h: "message_history (publish_all ?bus ms) = drop (length ms - nat N) ms"
    by (simp add: AgentMessageBus_init_def)
  have "length ms - min (length ms) (nat N) = length ms - nat N" by arith
  then show ?thesis using h by (simp add: get_message_history_def; arith)
qed

theorem C4_history_ring_buffer_witness:
  "(0::int) \<le> 2
   \<and> get_message_history
        (publish_all (AgentMessageBus_init 2 False)
           [example_message ''m1'', example_message ''m2'', example_message ''m3'']) None
      = [example_message ''m2'', example_message ''m3'']
   \<and> length (get_message_history
        (publish_all (AgentMessageBus_init 2 False)
           [example_message ''m1'', example_message ''m2'', example_message ''m3'']) None) = 2"
  using C4_history_ring_buffer [of 2 False
      "[example_message ''m1'', example_message ''m2'', example_message ''m3'']"]
  by simp


section \<open>The validator's decision on an action proposal\<close>

text \<open>
  C6. For a proposal that deserializes (its confidence lies in \<open>[0, 1]\<close>) and a
  validator with the auto-approve threshold 0.8, \<open>validate_action\<close> approves exactly
  when the confidence is at least 0.8 and the action is not high-risk, where high-risk
  means that the lower-cased action type is "terminate" or "complete" or that the risk
  assessment is "high". It publishes one message, of type ACTION_APPROVAL when approved
  and ACTION_REJECTION otherwise, whose \<open>in_response_to\<close> is the id of the proposal
  message, and returns the pair of the decision and the (empty) modifications.
\<close>

theorem C6_validate_action:
  assumes "content pm = ProposalPayload proposal"
      and "0 \<le> confidence proposal" and "confidence proposal \<le> 1"
      and "auto_approve_threshold v = 0.8"
  shows "\<exists>ok m apm.
           validate_action float_str bus v pm mid now = Inr ((ok, modifications apm), publish bus m)
         \<and> (ok \<longleftrightarrow> confidence proposal \<ge> 0.8
                  \<and> \<not> (lower (ap_action_type proposal) = ''terminate''
                        \<or> lower (ap_action_type proposal) = ''complete''
                        \<or> risk_assessment proposal = ''high''))
         \<and> message_type m = (if ok then ACTION_APPROVAL else ACTION_REJECTION)
         \<and> in_response_to m = Some (message_id pm)
         \<and> sender_id m = agent_id v
         \<and> content m = ApprovalPayload apm \<and> approved apm = ok \<and> modifications apm = []"
proof -
  let ?risky = "is_high_risk_action proposal"
  let ?ok = "confidence proposal \<ge> auto_approve_threshold v \<and> \<not> ?risky"
  let ?apm = "\<lparr> approved = ?ok,
                approver_reasoning =
                  ''Action '' @ (if ?ok then ''approved'' else ''rejected'')
                  @ '' based on confidence '' @ float_str (confidence proposal)
                  @ '' and risk assessment'',
                modifications = [],
                conditions = (if ?risky then [''Monitor for unexpected page changes''] else []) \<rparr>"
  let ?m = "\<lparr> message_id = mid, timestamp = now, sender_role = role v,
              sender_id = agent_id v, recipient_role = None, recipient_id = None,
              message_type = (if ?ok then ACTION_APPROVAL else ACTION_REJECTION),
              content = ApprovalPayload ?apm, task_id = agent_task_id v,
              step_id = agent_step_id v, priority = 9,
              requires_response = False, in_response_to = Some (message_id pm) \<rparr>"
  have parse: "parse_action_proposal (content pm) = Inr proposal"
    using assms by (simp add: parse_action_proposal_def)
  have run: "validate_action float_str bus v pm mid now
               = Inr ((?ok, modifications ?apm), publish bus ?m)"
    by (simp add: validate_action_def parse send_message_def Let_def)
  have ok: "?ok \<longleftrightarrow> confidence proposal \<ge> 0.8
                  \<and> \<not> (lower (ap_action_type proposal) = ''terminate''
                        \<or> lower (ap_action_type proposal) = ''complete''
                        \<or> risk_assessment proposal = ''high'')"
    unfolding assms(4) is_high_risk_action_def by auto
  have "validate_action float_str bus v pm mid now
               = Inr ((?ok, modifications ?apm), publish bus ?m)
         \<and> (?ok \<longleftrightarrow> confidence proposal \<ge> 0.8
                  \<and> \<not> (lower (ap_action_type proposal) = ''terminate''
                        \<or> lower (ap_action_type proposal) = ''complete''
                        \<or> risk_assessment proposal = ''high''))
         \<and> message_type ?m = (if ?ok then ACTION_APPROVAL else ACTION_REJECTION)
         \<and> in_response_to ?m = Some (message_id pm)
         \<and> sender_id ?m = agent_id v
         \<and> content ?m = ApprovalPayload ?apm \<and> approved ?apm = ?ok \<and> modifications ?apm = []"
    using run ok by simp
  then show ?thesis by blast
qed

theorem C6_validate_action_witness:
  "\<exists>m. validate_action (\<lambda>r. ''0.9'') (AgentMessageBus_init 1000 False)
          (ValidatorAgent_init ''validator-t1'' ''t1'' ''s1'')
          (example_proposal_message ''click'' 0.9) ''id-1'' 0
        = Inr ((True, []), publish (AgentMessageBus_init 1000 False) m)
      \<and> message_type m = ACTION_APPROVAL \<and> in_response_to m = Some ''proposal-1''"
  using C6_validate_action [of "example_proposal_message ''click'' 0.9"
      "example_proposal ''click'' 0.9" "ValidatorAgent_init ''validator-t1'' ''t1'' ''s1''"
      "\<lambda>r. ''0.9''" "AgentMessageBus_init 1000 False" "''id-1''" 0]
  by (auto simp: example_proposal_message_def example_proposal_def ValidatorAgent_init_def
        lower_def char_lower_def)


section \<open>The coordinator's message history\<close>

text \<open>
  C9. \<open>AgentSwarmCoordinator.get_message_history\<close> passes the keyword \<open>task_id\<close> to a
  method whose only parameter is \<open>filter\<close>: for every coordinator and every bus state
  the call raises \<open>TypeError\<close> and returns no history.
\<close>

theorem C9_coordinator_get_message_history_raises:
  "coordinator_get_message_history c bus
     = Inl (TypeError (''AgentMessageBus.get_message_history() got an unexpected keyword argument ''
                       @ [CHR 0x27] @ ''task_id'' @ [CHR 0x27]))"
  by (simp add: coordinator_get_message_history_def call_get_message_history_def)


section \<open>Agent lifecycle\<close>

subsection \<open>Subscriber tables\<close>

lemma table_queues_append [simp]:
  "table_queues (table_append tbl k q) = insert q (table_queues tbl)"
  by (induction tbl k q rule: table_append.induct) (auto simp: table_queues_def)

lemma table_distinct_append:
  "table_distinct tbl \<Longrightarrow> q \<notin> table_queues tbl \<Longrightarrow> table_distinct (table_append tbl k q)"
  by (induction tbl k q rule: table_append.induct) (auto simp: table_queues_def table_distinct_def)

lemma table_get_append [simp]:
  "table_get (table_append tbl k q) k = table_get tbl k @ [q]"
  by (induction tbl k q rule: table_append.induct) (auto simp: table_get_def)

lemma table_remove_id:
  "q \<notin> table_queues tbl \<Longrightarrow> table_remove tbl q = tbl"
  by (induction tbl) (auto simp: table_queues_def table_remove_def remove1_idem)

lemma table_queues_remove:
  "table_distinct tbl \<Longrightarrow> table_queues (table_remove tbl q) = table_queues tbl - {q}"
  by (induction tbl) (auto simp: table_queues_def table_remove_def table_distinct_def)

lemma table_distinct_remove:
  "table_distinct tbl \<Longrightarrow> table_distinct (table_remove tbl q)"
  by (induction tbl) (auto simp: table_remove_def table_distinct_def)

lemma unsubscribe_unregistered:
  assumes "subscribers_count bus = count_subscribers bus" "q \<notin> subscribed_queues bus"
  shows "unsubscribe bus q = bus"
  using assms
  by (simp add: unsubscribe_def subscribed_queues_def table_remove_id remove1_idem
        count_subscribers_def Let_def)

lemma subscribed_queues_unsubscribe:
  "bus_wf bus \<Longrightarrow> subscribed_queues (unsubscribe bus q) = subscribed_queues bus - {q}"
  by (auto simp: unsubscribe_def subscribed_queues_def bus_wf_def table_queues_remove Let_def)

lemma bus_wf_unsubscribe: "bus_wf bus \<Longrightarrow> bus_wf (unsubscribe bus q)"
  unfolding bus_wf_def
  apply (intro conjI)
  subgoal using subscribed_queues_unsubscribe [of bus q]
    by (auto simp: bus_wf_def unsubscribe_def Let_def)
  by (simp_all add: unsubscribe_def Let_def table_distinct_remove count_subscribers_def)

lemma bus_wf_init: "bus_wf (AgentMessageBus_init n r)"
  by (simp add: bus_wf_def AgentMessageBus_init_def subscribed_queues_def table_queues_def
        table_distinct_def count_subscribers_def table_count_def)

lemma agent_wf_init: "agent_wf bus (BaseAgent_init aid r tid sid)"
  by (simp add: agent_wf_def BaseAgent_init_def)


lemma subscribe_queue:
  "snd (subscribe bus a r t tid b) = length (queue_store bus)"
  by (simp add: subscribe_def Let_def)

lemma subscribe_store:
  "queue_store (fst (subscribe bus a r t tid b)) = queue_store bus @ [[]]"
  by (simp add: subscribe_def Let_def split: option.splits)

lemma subscribe_count:
  "subscribers_count (fst (subscribe bus a r t tid b)) = count_subscribers (fst (subscribe bus a r t tid b))"
  by (simp add: subscribe_def Let_def count_subscribers_def split: option.splits)

lemma subscribe_subscribed:
  "subscribed_queues (fst (subscribe bus a r t tid b))
     \<subseteq> insert (length (queue_store bus)) (subscribed_queues bus)"
  by (auto simp: subscribe_def Let_def subscribed_queues_def split: option.splits if_splits)

lemma subscribe_keeps:
  "subscribed_queues bus \<subseteq> subscribed_queues (fst (subscribe bus a r t tid b))"
  by (auto simp: subscribe_def Let_def subscribed_queues_def split: option.splits if_splits)

lemma bus_wf_fresh:
  "bus_wf bus \<Longrightarrow> length (queue_store bus) \<notin> subscribed_queues bus"
  by (auto simp: bus_wf_def)

lemma bus_wf_subscribe:
  assumes "bus_wf bus"
  shows "bus_wf (fst (subscribe bus a r t tid b))"
proof -
  let ?q = "length (queue_store bus)"
  let ?bus' = "fst (subscribe bus a r t tid b)"
  have fresh: "?q \<notin> subscribed_queues bus" using assms by (rule bus_wf_fresh)
  then have f: "?q \<notin> set (broadcast_subscribers bus)" "?q \<notin> table_queues (subscribers bus)"
    "?q \<notin> table_queues (role_subscribers bus)"
    "?q \<notin> table_queues (message_type_subscribers bus)"
    "?q \<notin> table_queues (task_subscribers bus)"
    by (simp_all add: subscribed_queues_def)
  have "q < length (queue_store ?bus')" if "q \<in> subscribed_queues ?bus'" for q
  proof -
    from that subscribe_subscribed [of bus a r t tid b]
    have "q = ?q \<or> q \<in> subscribed_queues bus" by blast
    then show ?thesis using assms by (auto simp: subscribe_store bus_wf_def)
  qed
  then have bound: "\<forall>q \<in> subscribed_queues ?bus'. q < length (queue_store ?bus')"
    by blast
  have d0: "distinct (broadcast_subscribers ?bus')"
    using assms f by (simp add: subscribe_def Let_def bus_wf_def split: option.splits)
  have d1: "table_distinct (subscribers ?bus')"
    using assms f by (simp add: subscribe_def Let_def bus_wf_def table_distinct_append split: option.splits)
  have d2: "table_distinct (role_subscribers ?bus')"
    using assms f by (simp add: subscribe_def Let_def bus_wf_def table_distinct_append split: option.splits)
  have d3: "table_distinct (message_type_subscribers ?bus')"
    using assms f by (simp add: subscribe_def Let_def bus_wf_def table_distinct_append split: option.splits)
  have d4: "table_distinct (task_subscribers ?bus')"
    using assms f by (simp add: subscribe_def Let_def bus_wf_def table_distinct_append split: option.splits)
  show ?thesis
    unfolding bus_wf_def using bound d0 d1 d2 d3 d4 subscribe_count [of bus a r t tid b] by blast
qed

lemma start_role_table:
  "table_get (role_subscribers (fst (start bus agent))) (role agent)
     = table_get (role_subscribers bus) (role agent) @ [length (queue_store bus)]"
  by (simp add: start_def subscribe_def Let_def split: option.splits)

lemma start_agent:
  "snd (start bus agent) = agent \<lparr> active := True, message_queue := Some (length (queue_store bus)) \<rparr>"
  by (simp add: start_def subscribe_def Let_def split: prod.splits)

lemma start_bus:
  "fst (start bus agent) = fst (subscribe bus (Some (agent_id agent)) (Some (role agent)) None (agent_task_id agent) False)"
  by (simp add: start_def split: prod.splits)

lemma stop_bus:
  "fst (stop bus agent) = (case message_queue agent of None \<Rightarrow> bus | Some q \<Rightarrow> unsubscribe bus q)"
  by (simp add: stop_def Let_def)

lemma stop_agent: "snd (stop bus agent) = agent \<lparr> active := False \<rparr>"
  by (simp add: stop_def Let_def)

lemma unsubscribe_store [simp]: "queue_store (unsubscribe bus q) = queue_store bus"
  by (simp add: unsubscribe_def Let_def)

lemma agent_wf_subscribe_other:
  assumes "bus_wf bus" and "agent_wf bus agent"
  shows "agent_wf (fst (subscribe bus a r t tid b)) agent"
proof (cases "message_queue agent")
  case None
  then show ?thesis by (simp add: agent_wf_def)
next
  case (Some q)
  with assms have q: "q < length (queue_store bus)" by (simp add: agent_wf_def)
  have "q \<notin> subscribed_queues (fst (subscribe bus a r t tid b))"
    if "q \<notin> subscribed_queues bus"
    using that q subscribe_subscribed [of bus a r t tid b] by auto
  with Some q assms show ?thesis by (simp add: agent_wf_def subscribe_store)
qed

lemma agent_wf_unsubscribe_other:
  assumes "bus_wf bus" and "agent_wf bus agent"
  shows "agent_wf (unsubscribe bus q) agent"
  using assms subscribed_queues_unsubscribe [of bus q]
  by (auto simp: agent_wf_def split: option.splits)

lemma deliver_length [simp]: "length (deliver targets m store) = length store"
  by (simp add: deliver_def)

lemma bus_wf_publish: "bus_wf bus \<Longrightarrow> bus_wf (publish bus m)"
  by (simp add: bus_wf_def publish_def Let_def subscribed_queues_def count_subscribers_def)

lemma agent_wf_publish: "agent_wf bus agent \<Longrightarrow> agent_wf (publish bus m) agent"
  by (simp add: agent_wf_def publish_def Let_def subscribed_queues_def split: option.splits)


subsection \<open>start and stop\<close>

lemma start_tables:
  "role_subscribers (fst (start bus agent))
     = table_append (role_subscribers bus) (role agent) (length (queue_store bus))"
  "subscribers (fst (start bus agent))
     = (if agent_id agent = [] then subscribers bus
        else table_append (subscribers bus) (agent_id agent) (length (queue_store bus)))"
  "task_subscribers (fst (start bus agent))
     = (case agent_task_id agent of
          None \<Rightarrow> task_subscribers bus
        | Some t \<Rightarrow> if t = [] then task_subscribers bus
                    else table_append (task_subscribers bus) t (length (queue_store bus)))"
  "message_type_subscribers (fst (start bus agent)) = message_type_subscribers bus"
  "broadcast_subscribers (fst (start bus agent)) = broadcast_subscribers bus"
  by (simp_all add: start_def subscribe_def Let_def split: option.splits)

text \<open>
  C7 (as amended). In every well-formed state, \<open>stop()\<close> on an inactive agent changes
  neither the bus nor the agent. \<open>start()\<close> has no guard for an agent that is already
  active: it always leaves the agent active, allocates one more queue, makes it the
  agent's queue and registers it under the agent's role, under the agent's id when the
  id is not empty and under the agent's task id when the agent has a non-empty one; the
  other two tables are unchanged, and every queue registered before stays registered.
  Both operations keep the state well-formed.
\<close>

theorem C7_stop_noop_start_resubscribes:
  assumes "bus_wf bus" and "agent_wf bus agent"
  shows "(\<not> active agent \<longrightarrow> stop bus agent = (bus, agent))
       \<and> active (snd (start bus agent))
       \<and> message_queue (snd (start bus agent)) = Some (length (queue_store bus))
       \<and> queue_store (fst (start bus agent)) = queue_store bus @ [[]]
       \<and> table_get (role_subscribers (fst (start bus agent))) (role agent)
           = table_get (role_subscribers bus) (role agent) @ [length (queue_store bus)]
       \<and> role_subscribers (fst (start bus agent))
           = table_append (role_subscribers bus) (role agent) (length (queue_store bus))
       \<and> subscribers (fst (start bus agent))
           = (if agent_id agent = [] then subscribers bus
              else table_append (subscribers bus) (agent_id agent) (length (queue_store bus)))
       \<and> (agent_id agent \<noteq> []
            \<longrightarrow> table_get (subscribers (fst (start bus agent))) (agent_id agent)
                = table_get (subscribers bus) (agent_id agent) @ [length (queue_store bus)])
       \<and> task_subscribers (fst (start bus agent))
           = (case agent_task_id agent of
                None \<Rightarrow> task_subscribers bus
              | Some t \<Rightarrow> if t = [] then task_subscribers bus
                          else table_append (task_subscribers bus) t (length (queue_store bus)))
       \<and> (\<forall>t. agent_task_id agent = Some t \<and> t \<noteq> []
            \<longrightarrow> table_get (task_subscribers (fst (start bus agent))) t
                = table_get (task_subscribers bus) t @ [length (queue_store bus)])
       \<and> message_type_subscribers (fst (start bus agent)) = message_type_subscribers bus
       \<and> broadcast_subscribers (fst (start bus agent)) = broadcast_subscribers bus
       \<and> subscribed_queues bus \<subseteq> subscribed_queues (fst (start bus agent))
       \<and> bus_wf (fst (start bus agent)) \<and> agent_wf (fst (start bus agent)) (snd (start bus agent))
       \<and> \<not> active (snd (stop bus agent))
       \<and> bus_wf (fst (stop bus agent)) \<and> agent_wf (fst (stop bus agent)) (snd (stop bus agent))"
proof -
  have noop: "stop bus agent = (bus, agent)" if "\<not> active agent"
  proof (cases "message_queue agent")
    case None
    with that show ?thesis by (simp add: stop_def)
  next
    case (Some q)
    with that assms have "q \<notin> subscribed_queues bus" by (simp add: agent_wf_def)
    moreover have "subscribers_count bus = count_subscribers bus"
      using assms by (simp add: bus_wf_def)
    ultimately have "unsubscribe bus q = bus" by (simp add: unsubscribe_unregistered)
    with Some that show ?thesis by (simp add: stop_def)
  qed
  have wf_start: "bus_wf (fst (start bus agent))"
    unfolding start_bus using assms(1) by (rule bus_wf_subscribe)
  have awf_start: "agent_wf (fst (start bus agent)) (snd (start bus agent))"
    by (simp add: start_agent start_bus subscribe_store agent_wf_def)
  have wf_stop: "bus_wf (fst (stop bus agent))"
    using assms(1) by (simp add: stop_bus bus_wf_unsubscribe split: option.splits)
  have awf_stop: "agent_wf (fst (stop bus agent)) (snd (stop bus agent))"
    using assms subscribed_queues_unsubscribe [of bus]
    by (auto simp: stop_bus stop_agent agent_wf_def split: option.splits)
  have store_start: "queue_store (fst (start bus agent)) = queue_store bus @ [[]]"
    by (simp add: start_bus subscribe_store)
  have keeps: "subscribed_queues bus \<subseteq> subscribed_queues (fst (start bus agent))"
    by (simp add: start_bus subscribe_keeps)
  have by_id: "table_get (subscribers (fst (start bus agent))) (agent_id agent)
                = table_get (subscribers bus) (agent_id agent) @ [length (queue_store bus)]"
    if "agent_id agent \<noteq> []"
    using that by (simp add: start_tables)
  have by_task: "table_get (task_subscribers (fst (start bus agent))) t
                = table_get (task_subscribers bus) t @ [length (queue_store bus)]"
    if "agent_task_id agent = Some t \<and> t \<noteq> []" for t
    using that by (simp add: start_tables)
  show ?thesis
    using noop wf_start awf_start wf_stop awf_stop store_start keeps by_id by_task
    by (simp add: start_agent stop_agent start_role_table start_tables)
qed


lemma started_values:
  "role_subscribers started_bus = [(PLANNER, [0])]"
  "subscribers started_bus = [(''planner-t1'', [0])]"
  "task_subscribers started_bus = [(''t1'', [0])]"
  "active started_agent" "message_queue started_agent = Some 0"
  by (simp_all add: started_bus_def started_agent_def start_def subscribe_def Let_def
        example_bus_def example_agent_def AgentMessageBus_init_def BaseAgent_init_def)

theorem C7_start_twice_counterexample:
  "active started_agent
   \<and> start started_bus started_agent \<noteq> (started_bus, started_agent)
   \<and> role_subscribers started_bus = [(PLANNER, [0])]
   \<and> role_subscribers (fst (start started_bus started_agent)) = [(PLANNER, [0, 1])]"
proof -
  have a: "role_subscribers (fst (start started_bus started_agent)) = [(PLANNER, [0, 1])]"
    by (simp add: started_bus_def started_agent_def start_def subscribe_def Let_def
        example_bus_def example_agent_def AgentMessageBus_init_def BaseAgent_init_def)
  then have "fst (start started_bus started_agent) \<noteq> started_bus"
    using started_values(1) by auto
  then have "start started_bus started_agent \<noteq> (started_bus, started_agent)" by auto
  then show ?thesis using a started_values by simp
qed

lemma stopped_values:
  "role_subscribers stopped_bus = [(PLANNER, [])]"
  "subscribers stopped_bus = [(''planner-t1'', [])]"
  "task_subscribers stopped_bus = [(''t1'', [])]"
  "queue_store stopped_bus = [[]]"
  "role stopped_agent = PLANNER" "agent_id stopped_agent = ''planner-t1''"
  "agent_task_id stopped_agent = Some ''t1''"
  by (simp_all add: stopped_bus_def stopped_agent_def stop_def unsubscribe_def table_remove_def
        started_bus_def started_agent_def start_def subscribe_def Let_def
        example_bus_def example_agent_def AgentMessageBus_init_def BaseAgent_init_def)

theorem C7_stop_noop_start_resubscribes_witness:
  "bus_wf stopped_bus \<and> agent_wf stopped_bus stopped_agent \<and> \<not> active stopped_agent
   \<and> message_queue stopped_agent = Some 0
   \<and> stop stopped_bus stopped_agent = (stopped_bus, stopped_agent)
   \<and> message_queue (snd (start stopped_bus stopped_agent)) = Some 1
   \<and> role_subscribers (fst (start stopped_bus stopped_agent)) = [(PLANNER, [1])]
   \<and> subscribers (fst (start stopped_bus stopped_agent)) = [(''planner-t1'', [1])]
   \<and> task_subscribers (fst (start stopped_bus stopped_agent)) = [(''t1'', [1])]"
proof -
  have b0: "bus_wf example_bus" unfolding example_bus_def by (rule bus_wf_init)
  have a0: "agent_wf example_bus example_agent" unfolding example_agent_def by (rule agent_wf_init)
  note s1 = C7_stop_noop_start_resubscribes [OF b0 a0]
  have b1: "bus_wf started_bus" and a1: "agent_wf started_bus started_agent"
    unfolding started_bus_def started_agent_def using s1 by simp_all
  note s2 = C7_stop_noop_start_resubscribes [OF b1 a1]
  have b2: "bus_wf stopped_bus" and a2: "agent_wf stopped_bus stopped_agent"
    and i2: "\<not> active stopped_agent"
    unfolding stopped_bus_def stopped_agent_def using s2 by simp_all
  note s3 = C7_stop_noop_start_resubscribes [OF b2 a2]
  have q: "message_queue stopped_agent = Some 0"
    by (simp add: stopped_agent_def stop_agent started_values)
  show ?thesis using b2 a2 i2 q s3 by (simp add: stopped_values)
qed

section \<open>Predicate evaluation fails closed\<close>




section \<open>Guards and affordances\<close>

subsection \<open>The loop over the guards and the result lists\<close>




lemma check_guards_none:
  "check_guards rt gs page url a = Inr None \<longleftrightarrow>
     (\<forall>g \<in> set gs. is_active rt g page url = Inr False
                    \<or> (is_active rt g page url = Inr True \<and> \<not> blocks_action g a))"
  by (induction gs) (auto split: sum.splits)






subsection \<open>The stable descending sort selects the authoritative affordance\<close>

lemma authoritative_affordance_None [simp]:
  "authoritative_affordance xs = None \<longleftrightarrow> xs = []"
  by (cases xs) (auto split: option.splits)





lemma sort_reverse_set [simp]: "set (sort_reverse key xs) = set xs"
  by (simp add: sort_reverse_def)

lemma sort_reverse_Nil [simp]: "sort_reverse key xs = [] \<longleftrightarrow> xs = []"
  by (metis sort_reverse_set set_empty)






subsection \<open>Evaluations on the example planners\<close>

lemmas example_defs =
  guarded_planner_def priority_planner_def unexplained_planner_def login_wall_def
  submit_freeze_def low_affordance_def high_affordance_def late_affordance_def
  other_element_affordance_def wildcard_affordance_def other_type_affordance_def
  unexplained_affordance_def mk_guard_def mk_affordance_def mk_predicate_def click_def
  example_page_def example_rt_def HybridPlanner_init_def register_guard_def
  register_affordance_def

lemma example_evaluations:
  "evaluate example_rt (mk_predicate ELEMENT_EXISTS ''submit_btn'') (Some example_page) u = Inr True"
  "evaluate example_rt (mk_predicate ELEMENT_EXISTS ''missing'') (Some example_page) u = Inr False"
  "evaluate example_rt (mk_predicate ELEMENT_EXISTS ''login_form'') (Some example_page) u = Inr False"
  by (simp_all add: evaluate_def mk_predicate_def example_page_def)


subsection \<open>An active guard rejects\<close>







subsection \<open>The authoritative affordance decides\<close>





subsection \<open>The reason of an affordance rejection\<close>

text \<open>
  C3. The code at the failing input: the selected affordance has failing preconditions
  and a non-empty metadata dictionary without the key \<open>failure_reason\<close>. The action
  is rejected and the recorded reason is \<open>None\<close>: neither a \<open>failure_reason\<close> nor the
  generic message.
\<close>

theorem C3_rejection_reason_absent:
  "(case validate_and_filter_actions example_rt unexplained_planner [click ''submit_btn'']
           (Some example_page) (Some ''https://example.com/form'') None of
      Inl e \<Rightarrow> None
    | Inr (res, p') \<Rightarrow> Some (filtered_actions res, rejected_actions res))
   = Some ([], [(click ''submit_btn'', PyNone)])"
proof -
  have m: "matching_affordances unexplained_planner (click ''submit_btn'') = [unexplained_affordance]"
    by (simp add: matching_affordances_def example_defs)
  have c: "can_execute example_rt unexplained_affordance (Some example_page) u = Inr False" for u
    by (simp add: can_execute_def unexplained_affordance_def mk_affordance_def example_evaluations)
  have r: "affordance_rejection_reason unexplained_affordance = PyNone"
    by (simp add: affordance_rejection_reason_def unexplained_affordance_def mk_affordance_def
          dict_get_def)
  have a: "affordances unexplained_planner = [unexplained_affordance]"
    "guards unexplained_planner = []"
    by (simp_all add: unexplained_planner_def register_affordance_def HybridPlanner_init_def)
  have p: "process_action example_rt unexplained_planner (Some example_page) u (click ''submit_btn'')
             = Inr (Reject PyNone)" for u
    by (simp add: process_action_def check_affordances_def a m c r sort_reverse_def Let_def)
  have fa: "filter_actions example_rt unexplained_planner (Some example_page) u
              [click ''submit_btn''] ([], [], []) = Inr ([], [(click ''submit_btn'', PyNone)], [])" for u
    by (simp add: p)
  have dl: "detect_loops unexplained_planner [] = (None, unexplained_planner)"
    by (simp add: detect_loops_def Let_def unexplained_planner_def register_affordance_def
          HybridPlanner_init_def)
  show ?thesis
    by (simp add: validate_and_filter_actions_def fa dl del: filter_actions.simps)
qed

section \<open>Loop detection\<close>

subsection \<open>Slices and the rolling history\<close>

lemma py_slice_last:
  "0 < k \<Longrightarrow> py_slice xs (Some (- k)) None = drop (length xs - nat k) xs"
  by (auto simp: py_slice_def norm_index_def Let_def max_def nat_diff_distrib' intro: arg_cong2 [where f = drop])

lemma py_slice_previous:
  assumes "0 < w" "2 * nat w \<le> length xs"
  shows "py_slice xs (Some (- w * 2)) (Some (- w)) = take (nat w) (drop (length xs - 2 * nat w) xs)"
proof -
  have lo: "norm_index (length xs) (- (w * 2)) = length xs - 2 * nat w"
    using assms by (simp add: norm_index_def max_def) linarith
  have hi: "norm_index (length xs) (- w) = length xs - nat w"
    using assms by (simp add: norm_index_def max_def) linarith
  have "(length xs - nat w) - (length xs - 2 * nat w) = nat w" using assms by linarith
  then show ?thesis by (simp add: py_slice_def Let_def lo hi)
qed


lemma detect_loops_disabled:
  "loop_detection_window p \<le> 0 \<Longrightarrow> detect_loops p actions = (None, p)"
  by (simp add: detect_loops_def)

lemma detect_loops_enabled:
  fixes p :: HybridPlanner and actions :: "Action list"
  assumes "0 < loop_detection_window p"
  defines "w \<equiv> nat (loop_detection_window p)"
  defines "appended \<equiv> action_history p @ map history_entry actions"
  defines "h \<equiv> drop (length appended - 2 * w) appended"
  shows "detect_loops p actions =
           (if 2 * w \<le> length h \<and> drop (length h - w) h = take w (drop (length h - 2 * w) h)
            then Some (''Potential loop detected: repeated sequence of ''
                       @ string_of_int (loop_detection_window p) @ '' actions'')
            else None,
            p \<lparr> action_history := h \<rparr>)"
proof -
  let ?w = "loop_detection_window p"
  have w: "0 < ?w" "int w = ?w" "nat (?w * 2) = 2 * w" using assms(1) by (simp_all add: w_def)
  have trunc: "(if int (length appended) > ?w * 2
                then py_slice appended (Some (- (?w * 2))) None else appended) = h"
  proof (cases "int (length appended) > ?w * 2")
    case True
    then show ?thesis using w by (simp add: py_slice_last h_def)
  next
    case False
    then have "length appended - 2 * w = 0" using w by linarith
    with False show ?thesis by (simp add: h_def)
  qed
  have short: "int (length h) < ?w * 2 \<longleftrightarrow> \<not> 2 * w \<le> length h" using w by linarith
  have recent: "py_slice h (Some (- ?w)) None = drop (length h - w) h"
    using w by (simp add: py_slice_last w_def)
  have previous: "py_slice h (Some (- ?w * 2)) (Some (- ?w)) = take w (drop (length h - 2 * w) h)"
    if "2 * w \<le> length h"
    using py_slice_previous [of ?w h] that w by (simp add: w_def)
  show ?thesis
  proof (cases "2 * w \<le> length h")
    case True
    with trunc short recent previous [OF True] w(1) show ?thesis
      unfolding detect_loops_def Let_def appended_def [symmetric]
      by (simp del: mult_minus_left)
  next
    case False
    with trunc short w(1) show ?thesis
      unfolding detect_loops_def Let_def appended_def [symmetric]
      by (simp del: mult_minus_left)
  qed
qed


lemma detect_loops_window [simp]:
  "loop_detection_window (snd (detect_loops p actions)) = loop_detection_window p"
  by (cases "0 < loop_detection_window p")
     (simp_all add: detect_loops_enabled detect_loops_disabled)

lemma detect_loops_history:
  assumes "0 < loop_detection_window p"
  shows "action_history (snd (detect_loops p actions))
           = drop (length (action_history p @ map history_entry actions)
                     - 2 * nat (loop_detection_window p))
                  (action_history p @ map history_entry actions)"
  using assms by (simp add: detect_loops_enabled)

lemma detect_loops_bound:
  assumes "0 < loop_detection_window p"
  shows "length (action_history (snd (detect_loops p actions))) \<le> 2 * nat (loop_detection_window p)"
  using assms by (simp add: detect_loops_enabled)

lemma detect_loops_warning:
  assumes "0 < loop_detection_window p"
  shows "fst (detect_loops p actions) \<noteq> None \<longleftrightarrow>
           (let h = action_history (snd (detect_loops p actions));
                w = nat (loop_detection_window p)
            in 2 * w \<le> length h
               \<and> drop (length h - w) h = take w (drop (length h - 2 * w) h))"
  using assms by (simp add: detect_loops_enabled Let_def)

lemma detect_loops_replay:
  assumes "0 < loop_detection_window p"
      and "length as = nat (loop_detection_window p)"
      and "length bs = nat (loop_detection_window p)"
  shows "fst (detect_loops (snd (detect_loops p as)) bs) \<noteq> None
           \<longleftrightarrow> map history_entry as = map history_entry bs"
proof -
  let ?w = "nat (loop_detection_window p)"
  let ?ka = "map history_entry as" and ?kb = "map history_entry bs"
  let ?t = "drop (length (action_history p) - ?w) (action_history p)"
  let ?p1 = "snd (detect_loops p as)"
  have la: "length ?ka = ?w" and lb: "length ?kb = ?w" using assms by simp_all
  have "length (action_history p @ ?ka) - 2 * ?w = length (action_history p) - ?w"
    using la by simp
  then have h1: "action_history ?p1 = ?t @ ?ka"
    using detect_loops_history [OF assms(1), of as] la by simp
  have w1: "0 < loop_detection_window ?p1" using assms(1) by simp
  have "length ((?t @ ?ka) @ ?kb) - 2 * ?w = length ?t" using la lb by simp
  then have h2: "action_history (snd (detect_loops ?p1 bs)) = ?ka @ ?kb"
    using detect_loops_history [OF w1, of bs] h1 by simp
  have "fst (detect_loops ?p1 bs) \<noteq> None \<longleftrightarrow> ?kb = ?ka"
    using detect_loops_warning [OF w1, of bs] h2 la lb by (simp add: Let_def)
  then show ?thesis by auto
qed

lemma check_affordances_ignores_history [simp]:
  "check_affordances rt (p \<lparr> action_history := hh, loop_detection_window := ww \<rparr>) page url a
     = check_affordances rt p page url a"
  by (simp add: check_affordances_def matching_affordances_def)

lemma process_action_ignores_history [simp]:
  "process_action rt (p \<lparr> action_history := hh, loop_detection_window := ww \<rparr>) page url a
     = process_action rt p page url a"
  by (simp add: process_action_def split: sum.splits option.splits)

lemma filter_actions_ignores_history [simp]:
  "filter_actions rt (p \<lparr> action_history := hh, loop_detection_window := ww \<rparr>) page url as acc
     = filter_actions rt p page url as acc"
proof (induction as arbitrary: acc)
  case Nil
  then show ?case by simp
next
  case (Cons a as)
  obtain f r w where acc: "acc = (f, r, w)" by (cases acc) auto
  show ?case unfolding acc
    by (simp add: Cons.IH split: sum.splits verdict.splits)
qed

lemma validate_ignores_history:
  "(case validate_and_filter_actions rt (p \<lparr> action_history := hh, loop_detection_window := ww \<rparr>)
           actions page url task of
      Inl e \<Rightarrow> Inl e
    | Inr (res, p') \<Rightarrow> Inr (filtered_actions res, rejected_actions res))
   = (case validate_and_filter_actions rt p actions page url task of
        Inl e \<Rightarrow> Inl e
      | Inr (res, p') \<Rightarrow> Inr (filtered_actions res, rejected_actions res))"
  by (simp add: validate_and_filter_actions_def Let_def split: sum.splits prod.splits)

lemma validate_planner_after:
  assumes "validate_and_filter_actions rt p actions page url task = Inr (res, p')"
  shows "p' = snd (detect_loops p (filtered_actions res))
       \<and> (\<exists>ws. warnings res
                  = ws @ (case fst (detect_loops p (filtered_actions res)) of
                            None \<Rightarrow> [] | Some lw \<Rightarrow> [lw]))"
proof -
  from assms obtain f r w where fa: "filter_actions rt p page url actions ([], [], []) = Inr (f, r, w)"
    by (auto simp: validate_and_filter_actions_def split: sum.splits)
  obtain lw q where dl: "detect_loops p f = (lw, q)" by (cases "detect_loops p f") auto
  have msg: "lw = Some m \<Longrightarrow> m \<noteq> []" for m
    using dl by (cases "0 < loop_detection_window p")
      (auto simp: detect_loops_enabled detect_loops_disabled split: if_splits)
  from assms fa dl have res: "filtered_actions res = f" "p' = q"
    "warnings res = (case lw of None \<Rightarrow> w | Some m \<Rightarrow> if m \<noteq> [] then w @ [m] else w)"
    by (auto simp: validate_and_filter_actions_def Let_def)
  have "warnings res = w @ (case lw of None \<Rightarrow> [] | Some m \<Rightarrow> [m])"
    using res(3) msg by (cases lw) auto
  then show ?thesis using res dl by auto
qed


lemma example_entries:
  "history_entry (click e) = (if e \<noteq> [] then e else ''global'', ''click'')"
  "history_entry (input_text e t) = (if e \<noteq> [] then e else ''global'', ''input_text'')"
  "history_entry click_anywhere = (''global'', ''click'')"
  by (simp_all add: history_entry_def click_def input_text_def click_anywhere_def)


subsection \<open>The loop warning\<close>

text \<open>
  C5 (as amended). For a loop detection window \<open>w > 0\<close>: \<open>_detect_loops\<close> appends the
  pair (element id or "global", action type) of each accepted action to the history
  and keeps the last \<open>2 * w\<close> entries. It returns a warning exactly when the history
  then holds at least \<open>2 * w\<close> entries and its last \<open>w\<close> entries equal the \<open>w\<close>
  entries before them. When two consecutive calls each accept \<open>w\<close> actions, the second
  call warns if and only if the two sequences have the same pairs position by position.
  In \<open>validate_and_filter_actions\<close> the planner after the call is the one that
  \<open>_detect_loops\<close> leaves for the filtered actions, the loop warning is the last
  warning of the result, and the filtered and rejected actions do not depend on the
  history or the window: the warning never rejects.
\<close>

theorem C5_loop_detection:
  assumes "0 < loop_detection_window p"
  shows "action_history (snd (detect_loops p actions))
           = drop (length (action_history p @ map history_entry actions)
                     - 2 * nat (loop_detection_window p))
                  (action_history p @ map history_entry actions)
       \<and> length (action_history (snd (detect_loops p actions)))
           \<le> 2 * nat (loop_detection_window p)
       \<and> (fst (detect_loops p actions) \<noteq> None \<longleftrightarrow>
            (let h = action_history (snd (detect_loops p actions));
                 w = nat (loop_detection_window p)
             in 2 * w \<le> length h
                \<and> drop (length h - w) h = take w (drop (length h - 2 * w) h)))
       \<and> (\<forall>bs. length actions = nat (loop_detection_window p)
                 \<and> length bs = nat (loop_detection_window p)
              \<longrightarrow> (fst (detect_loops (snd (detect_loops p actions)) bs) \<noteq> None
                     \<longleftrightarrow> map history_entry actions = map history_entry bs))
       \<and> (\<forall>rt candidates page url task res p'.
              validate_and_filter_actions rt p candidates page url task = Inr (res, p')
              \<longrightarrow> p' = snd (detect_loops p (filtered_actions res))
                  \<and> (\<exists>ws. warnings res
                             = ws @ (case fst (detect_loops p (filtered_actions res)) of
                                       None \<Rightarrow> [] | Some lw \<Rightarrow> [lw])))
       \<and> (\<forall>rt candidates page url task hh ww.
              (case validate_and_filter_actions rt
                      (p \<lparr> action_history := hh, loop_detection_window := ww \<rparr>)
                      candidates page url task of
                 Inl e \<Rightarrow> Inl e
               | Inr (res, p') \<Rightarrow> Inr (filtered_actions res, rejected_actions res))
              = (case validate_and_filter_actions rt p candidates page url task of
                   Inl e \<Rightarrow> Inl e
                 | Inr (res, p') \<Rightarrow> Inr (filtered_actions res, rejected_actions res)))"
proof (intro conjI allI impI)
  show "action_history (snd (detect_loops p actions))
           = drop (length (action_history p @ map history_entry actions)
                     - 2 * nat (loop_detection_window p))
                  (action_history p @ map history_entry actions)"
    by (rule detect_loops_history [OF assms])
  show "length (action_history (snd (detect_loops p actions)))
           \<le> 2 * nat (loop_detection_window p)"
    by (rule detect_loops_bound [OF assms])
  show "fst (detect_loops p actions) \<noteq> None \<longleftrightarrow>
            (let h = action_history (snd (detect_loops p actions));
                 w = nat (loop_detection_window p)
             in 2 * w \<le> length h
                \<and> drop (length h - w) h = take w (drop (length h - 2 * w) h))"
    by (rule detect_loops_warning [OF assms])
next
  fix bs :: "Action list"
  assume "length actions = nat (loop_detection_window p)
            \<and> length bs = nat (loop_detection_window p)"
  then show "fst (detect_loops (snd (detect_loops p actions)) bs) \<noteq> None
               \<longleftrightarrow> map history_entry actions = map history_entry bs"
    using detect_loops_replay [OF assms] by blast
next
  fix rt candidates page url task res p'
  assume v: "validate_and_filter_actions rt p candidates page url task = Inr (res, p')"
  from validate_planner_after [OF v]
  show "p' = snd (detect_loops p (filtered_actions res))"
    and "\<exists>ws. warnings res
                = ws @ (case fst (detect_loops p (filtered_actions res)) of
                          None \<Rightarrow> [] | Some lw \<Rightarrow> [lw])"
    by blast+
next
  fix rt candidates page url task hh ww
  show "(case validate_and_filter_actions rt
                (p \<lparr> action_history := hh, loop_detection_window := ww \<rparr>)
                candidates page url task of
           Inl e \<Rightarrow> Inl e
         | Inr (res, p') \<Rightarrow> Inr (filtered_actions res, rejected_actions res))
        = (case validate_and_filter_actions rt p candidates page url task of
             Inl e \<Rightarrow> Inl e
           | Inr (res, p') \<Rightarrow> Inr (filtered_actions res, rejected_actions res))"
    by (rule validate_ignores_history)
qed

theorem C5_loop_detection_witness:
  "0 < loop_detection_window (planner_with_window 3)
   \<and> fst (detect_loops
             (snd (detect_loops (planner_with_window 3)
                     [click ''btn1'', click ''btn2'', input_text ''input1'' ''test'']))
             [click ''btn1'', click ''btn2'', input_text ''input1'' ''test'']) \<noteq> None
   \<and> fst (detect_loops
             (snd (detect_loops (planner_with_window 3)
                     [click ''btn1'', click ''btn2'', input_text ''input1'' ''test'']))
             [click ''btn1'', click ''btn3'', input_text ''input1'' ''test'']) = None"
proof -
  have w: "0 < loop_detection_window (planner_with_window 3)"
    "nat (loop_detection_window (planner_with_window 3)) = 3"
    by (simp_all add: planner_with_window_def HybridPlanner_init_def)
  from C5_loop_detection [OF w(1), of "[click ''btn1'', click ''btn2'', input_text ''input1'' ''test'']"]
  have r: "length bs = 3 \<Longrightarrow>
             fst (detect_loops
                    (snd (detect_loops (planner_with_window 3)
                            [click ''btn1'', click ''btn2'', input_text ''input1'' ''test'']))
                    bs) \<noteq> None
             \<longleftrightarrow> map history_entry [click ''btn1'', click ''btn2'', input_text ''input1'' ''test'']
                   = map history_entry bs" for bs
    unfolding w(2) by simp
  show ?thesis
    using w(1) r [of "[click ''btn1'', click ''btn2'', input_text ''input1'' ''test'']"]
      r [of "[click ''btn1'', click ''btn3'', input_text ''input1'' ''test'']"]
    by (simp add: example_entries)
qed

theorem C5_loop_detection_counterexample:
  "input_text ''name'' ''alice'' \<noteq> input_text ''name'' ''bob''
   \<and> fst (detect_loops
             (snd (detect_loops (planner_with_window 1) [input_text ''name'' ''alice'']))
             [input_text ''name'' ''bob'']) \<noteq> None
   \<and> click_anywhere \<noteq> click ''global''
   \<and> fst (detect_loops (snd (detect_loops (planner_with_window 1) [click_anywhere]))
             [click ''global'']) \<noteq> None
   \<and> action_history (planner_with_window 0) = []
   \<and> detect_loops (planner_with_window 0) [click ''btn1'']
       = (None, planner_with_window 0)"
proof -
  have d: "input_text ''name'' ''alice'' \<noteq> input_text ''name'' ''bob''"
    "click_anywhere \<noteq> click ''global''"
    by (simp_all add: input_text_def click_anywhere_def click_def)
  have w1: "0 < loop_detection_window (planner_with_window 1)"
    "nat (loop_detection_window (planner_with_window 1)) = 1"
    by (simp_all add: planner_with_window_def HybridPlanner_init_def)
  have "fst (detect_loops
               (snd (detect_loops (planner_with_window 1) [input_text ''name'' ''alice'']))
               [input_text ''name'' ''bob'']) \<noteq> None
          \<longleftrightarrow> map history_entry [input_text ''name'' ''alice'']
                = map history_entry [input_text ''name'' ''bob'']"
    by (rule detect_loops_replay) (simp_all add: w1)
  then have a: "fst (detect_loops
               (snd (detect_loops (planner_with_window 1) [input_text ''name'' ''alice'']))
               [input_text ''name'' ''bob'']) \<noteq> None"
    by (simp add: example_entries)
  have "fst (detect_loops (snd (detect_loops (planner_with_window 1) [click_anywhere]))
               [click ''global'']) \<noteq> None
          \<longleftrightarrow> map history_entry [click_anywhere] = map history_entry [click ''global'']"
    by (rule detect_loops_replay) (simp_all add: w1)
  then have a': "fst (detect_loops (snd (detect_loops (planner_with_window 1) [click_anywhere]))
               [click ''global'']) \<noteq> None"
    by (simp add: example_entries)
  have b: "detect_loops (planner_with_window 0) [click ''btn1''] = (None, planner_with_window 0)"
    by (rule detect_loops_disabled) (simp add: planner_with_window_def HybridPlanner_init_def)
  have c: "action_history (planner_with_window 0) = []"
    by (simp add: planner_with_window_def HybridPlanner_init_def)
  show ?thesis using d a a' b c by simp
qed


subsection \<open>The bound on the history\<close>

lemma clear_action_history [simp]: "action_history (clear p) = []"
  by (simp add: clear_def)

lemma apply_planner_op_window [simp]:
  "loop_detection_window (apply_planner_op rt p c) = loop_detection_window p"
proof (cases c)
  case (Validate as page url task)
  show ?thesis
  proof (cases "validate_and_filter_actions rt p as page url task")
    case (Inl e)
    with Validate show ?thesis by simp
  next
    case (Inr rp)
    obtain res p' where rp: "rp = (res, p')" by (cases rp) auto
    from validate_planner_after [OF Inr [unfolded rp]] Validate Inr rp show ?thesis by simp
  qed
qed (simp_all add: clear_def register_predicate_def register_affordance_def register_guard_def)

lemma apply_planner_op_bound:
  assumes "0 < loop_detection_window p"
      and "int (length (action_history p)) \<le> 2 * loop_detection_window p"
  shows "int (length (action_history (apply_planner_op rt p c))) \<le> 2 * loop_detection_window p"
proof (cases c)
  case (Validate as page url task)
  show ?thesis
  proof (cases "validate_and_filter_actions rt p as page url task")
    case (Inl e)
    with Validate assms show ?thesis by simp
  next
    case (Inr rp)
    obtain res p' where rp: "rp = (res, p')" by (cases rp) auto
    from validate_planner_after [OF Inr [unfolded rp]]
    have "p' = snd (detect_loops p (filtered_actions res))" by simp
    with detect_loops_bound [OF assms(1), of "filtered_actions res"] assms(1)
    have "int (length (action_history p')) \<le> 2 * loop_detection_window p" by simp
    with Validate Inr rp show ?thesis by simp
  qed
qed (use assms in \<open>simp_all add: clear_def register_predicate_def register_affordance_def
       register_guard_def\<close>)

lemma run_planner_ops_bound:
  assumes "0 < loop_detection_window p"
      and "int (length (action_history p)) \<le> 2 * loop_detection_window p"
  shows "int (length (action_history (run_planner_ops rt p cmds))) \<le> 2 * loop_detection_window p
       \<and> loop_detection_window (run_planner_ops rt p cmds) = loop_detection_window p"
  using assms
proof (induction cmds arbitrary: p)
  case Nil
  then show ?case by (simp add: run_planner_ops_def)
next
  case (Cons c cmds)
  have "0 < loop_detection_window (apply_planner_op rt p c)" using Cons.prems by simp
  moreover have "int (length (action_history (apply_planner_op rt p c)))
                   \<le> 2 * loop_detection_window (apply_planner_op rt p c)"
    using apply_planner_op_bound [OF Cons.prems] by simp
  ultimately show ?case using Cons.IH [of "apply_planner_op rt p c"]
    by (simp add: run_planner_ops_def)
qed

lemma example_history_after_validate:
  "action_history
          (run_planner_ops example_rt (planner_with_window 1)
             [Validate [click ''a'', click ''b'', click ''c''] (Some example_page) None None])
   = [(''b'', ''click''), (''c'', ''click'')]"
  by (simp add: run_planner_ops_def validate_and_filter_actions_def process_action_def
        check_affordances_def planner_with_window_def HybridPlanner_init_def detect_loops_def
        Let_def history_entry_def click_def py_slice_def norm_index_def)

text \<open>
  C10. For a planner with loop detection window \<open>w > 0\<close>: after every call of
  \<open>validate_and_filter_actions\<close> that returns, the history holds at most \<open>2 * w\<close>
  entries, whatever it held before and however many actions were passed, and the window
  is unchanged; \<open>clear()\<close> empties the history; and a history within the bound stays
  within it under every sequence of planner operations (a call that raises leaves the
  planner as it was).
\<close>

theorem C10_history_bounded:
  assumes "0 < loop_detection_window p"
  shows "(\<forall>rt actions page url task res p'.
            validate_and_filter_actions rt p actions page url task = Inr (res, p')
            \<longrightarrow> int (length (action_history p')) \<le> 2 * loop_detection_window p
                \<and> loop_detection_window p' = loop_detection_window p)
       \<and> action_history (clear p) = []
       \<and> (int (length (action_history p)) \<le> 2 * loop_detection_window p
            \<longrightarrow> (\<forall>rt cmds.
                   int (length (action_history (run_planner_ops rt p cmds)))
                     \<le> 2 * loop_detection_window p))"
proof -
  have v: "int (length (action_history p')) \<le> 2 * loop_detection_window p
           \<and> loop_detection_window p' = loop_detection_window p"
    if "validate_and_filter_actions rt p actions page url task = Inr (res, p')"
    for rt actions page url task res p'
  proof -
    from validate_planner_after [OF that]
    have p': "p' = snd (detect_loops p (filtered_actions res))" by simp
    from detect_loops_bound [OF assms, of "filtered_actions res"] assms
    show ?thesis unfolding p' by simp
  qed
  show ?thesis using v run_planner_ops_bound [OF assms] by simp
qed


theorem C10_history_bounded_witness:
  "0 < loop_detection_window (planner_with_window 1)
   \<and> int (length (action_history
          (run_planner_ops example_rt (planner_with_window 1)
             [Validate [click ''a'', click ''b'', click ''c''] (Some example_page) None None,
              RegisterGuard submit_freeze,
              Validate [click ''d'', click ''e''] (Some example_page) None None])))
       \<le> 2
   \<and> action_history (clear (planner_with_window 1)) = []
   \<and> action_history
          (run_planner_ops example_rt (planner_with_window 1)
             [Validate [click ''a'', click ''b'', click ''c''] (Some example_page) None None])
       = [(''b'', ''click''), (''c'', ''click'')]"
proof -
  have w: "0 < loop_detection_window (planner_with_window 1)"
    "loop_detection_window (planner_with_window 1) = 1"
    "action_history (planner_with_window 1) = []"
    by (simp_all add: planner_with_window_def HybridPlanner_init_def)
  from C10_history_bounded [OF w(1)] w example_history_after_validate show ?thesis by simp
qed

end
